theory Spec2Isabelle
  imports Main "HOL-Library.Word"
begin

section \<open>Strings of the host language\<close>

text \<open>
  A JavaScript string is a sequence of 16-bit code units: \<open>s.length\<close> counts them,
  \<open>s.charCodeAt(i)\<close> reads one (0..65535) and \<open>String.fromCharCode\<close> builds one.
  The codec below depends on code units above 255, so they are modelled as 16-bit words.
\<close>

type_synonym code_unit = "16 word"
type_synonym jsstring = "code_unit list"

definition lit :: "string \<Rightarrow> jsstring" where
  \<comment> \<open>a string literal of the source, character by character\<close>
  "lit s = map (\<lambda>c. of_nat (of_char c)) s"

definition isWhiteSpace :: "code_unit \<Rightarrow> bool" where
  \<comment> \<open>what \<open>String.prototype.trim\<close> and \<open>parseInt\<close> strip: WhiteSpace and LineTerminator of
      ECMAScript (TAB, LF, VT, FF, CR, SP, NBSP, U+1680, U+2000..U+200A, U+2028, U+2029,
      U+202F, U+205F, U+3000, U+FEFF)\<close>
  "isWhiteSpace c \<longleftrightarrow>
     (let n = unat c
      in (9 \<le> n \<and> n \<le> 13) \<or> n = 32 \<or> n = 160 \<or> n = 0x1680 \<or> (0x2000 \<le> n \<and> n \<le> 0x200A) \<or>
         n = 0x2028 \<or> n = 0x2029 \<or> n = 0x202F \<or> n = 0x205F \<or> n = 0x3000 \<or> n = 0xFEFF)"

definition trim :: "jsstring \<Rightarrow> jsstring" where
  \<comment> \<open>\<open>s.trim()\<close>: white space is removed from both ends\<close>
  "trim s = rev (dropWhile isWhiteSpace (rev (dropWhile isWhiteSpace s)))"

definition lowerUnit :: "code_unit \<Rightarrow> code_unit" where
  "lowerUnit c = (if 65 \<le> unat c \<and> unat c \<le> 90 then c + 32 else c)"

definition upperUnit :: "code_unit \<Rightarrow> code_unit" where
  "upperUnit c = (if 97 \<le> unat c \<and> unat c \<le> 122 then c - 32 else c)"

definition toLowerCase :: "jsstring \<Rightarrow> jsstring" where
  \<comment> \<open>\<open>s.toLowerCase()\<close> on the Basic Latin letters A..Z; a code unit outside that range is
      kept as it is (the engine maps it through the Unicode tables)\<close>
  "toLowerCase s = map lowerUnit s"

definition toUpperCase :: "jsstring \<Rightarrow> jsstring" where
  \<comment> \<open>\<open>s.toUpperCase()\<close> on the Basic Latin letters a..z; the source applies it to hex
      digits only\<close>
  "toUpperCase s = map upperUnit s"

definition padStart :: "nat \<Rightarrow> code_unit \<Rightarrow> jsstring \<Rightarrow> jsstring" where
  "padStart n c s = replicate (n - length s) c @ s"

definition padEnd :: "nat \<Rightarrow> code_unit \<Rightarrow> jsstring \<Rightarrow> jsstring" where
  \<comment> \<open>pads up to \<open>n\<close> code units and never shortens\<close>
  "padEnd n c s = s @ replicate (n - length s) c"

definition isHexDigit :: "code_unit \<Rightarrow> bool" where
  \<comment> \<open>0..9, A..F, a..f\<close>
  "isHexDigit c \<longleftrightarrow>
     (let n = unat c in (48 \<le> n \<and> n \<le> 57) \<or> (65 \<le> n \<and> n \<le> 70) \<or> (97 \<le> n \<and> n \<le> 102))"

definition digitVal :: "code_unit \<Rightarrow> nat" where
  "digitVal c =
     (let n = unat c in if n \<le> 57 then n - 48 else if n \<le> 70 then n - 55 else n - 87)"

definition hexDigit :: "nat \<Rightarrow> code_unit" where
  \<comment> \<open>the digit \<open>Number.prototype.toString(16)\<close> writes for a value below 16: 0..9, a..f\<close>
  "hexDigit d = (if d < 10 then of_nat (48 + d) else of_nat (87 + d))"

fun toString16 :: "nat \<Rightarrow> jsstring" where
  "toString16 n = (if n < 16 then [hexDigit n] else toString16 (n div 16) @ [hexDigit (n mod 16)])"

declare toString16.simps [simp del]

definition parseInt16 :: "jsstring \<Rightarrow> int option" where
  \<comment> \<open>\<open>parseInt(s, 16)\<close>: leading white space is skipped, then a sign, then an optional
      \<open>0x\<close>/\<open>0X\<close>, then the longest run of hex digits; \<open>None\<close> is NaN\<close>
  "parseInt16 inputString =
     (let s0 = dropWhile isWhiteSpace inputString;
          sign = (if s0 \<noteq> [] \<and> hd s0 = 45 then - 1 else 1);
          s1 = (if s0 \<noteq> [] \<and> (hd s0 = 43 \<or> hd s0 = 45) then tl s0 else s0);
          s2 = (if 2 \<le> length s1 \<and> s1 ! 0 = 48 \<and> (s1 ! 1 = 120 \<or> s1 ! 1 = 88)
                then drop 2 s1 else s1);
          z = takeWhile isHexDigit s2
      in if z = [] then None
         else Some (sign * int (foldl (\<lambda>a d. 16 * a + digitVal d) 0 z)))"

definition fromCharCode :: "int option \<Rightarrow> code_unit" where
  \<comment> \<open>\<open>String.fromCharCode(n)\<close>: ToUint16, so NaN gives 0 and other numbers wrap mod 65536\<close>
  "fromCharCode n = (case n of None \<Rightarrow> 0 | Some k \<Rightarrow> word_of_int k)"

section \<open>Currency codec\<close>

fun decodeLoop :: "jsstring \<Rightarrow> jsstring" where
  \<comment> \<open>the \<open>for\<close> loop of \<open>hexToString\<close>: two code units a step (\<open>hex.substr(i, 2)\<close>),
      \<open>break\<close> at a pair that parses to 0 (\<open>-0 === 0\<close> holds as well)\<close>
  "decodeLoop [] = []"
| "decodeLoop [a] =
     (let charCode = parseInt16 [a]
      in if charCode = Some 0 then [] else [fromCharCode charCode])"
| "decodeLoop (a # b # rest) =
     (let charCode = parseInt16 [a, b]
      in if charCode = Some 0 then [] else fromCharCode charCode # decodeLoop rest)"

definition hexToString :: "jsstring \<Rightarrow> jsstring" where
  \<comment> \<open>\<open>str.trim() || hex\<close>: the empty string is falsy. Nothing in the \<open>try\<close> block throws,
      so its \<open>catch\<close> has no branch here.\<close>
  "hexToString hex =
     (if length hex \<noteq> 40 then hex
      else let str = decodeLoop hex in if trim str = [] then hex else trim str)"

definition stringToHex :: "jsstring \<Rightarrow> jsstring" where
  "stringToHex str =
     (if length str = 3 then str
      else toUpperCase (padEnd 40 48
             (concat (map (\<lambda>c. padStart 2 48 (toString16 (unat c))) str))))"

section \<open>Address validation\<close>

definition isBase58 :: "code_unit \<Rightarrow> bool" where
  \<comment> \<open>the class \<open>[1-9A-HJ-NP-Za-km-z]\<close>\<close>
  "isBase58 c \<longleftrightarrow>
     (let n = unat c
      in (49 \<le> n \<and> n \<le> 57) \<or> (65 \<le> n \<and> n \<le> 72) \<or> (74 \<le> n \<and> n \<le> 78) \<or>
         (80 \<le> n \<and> n \<le> 90) \<or> (97 \<le> n \<and> n \<le> 107) \<or> (109 \<le> n \<and> n \<le> 122))"

definition validateXRPLAddress :: "jsstring \<Rightarrow> bool" where
  \<comment> \<open>\<open>/^r[1-9A-HJ-NP-Za-km-z]{24,34}$/.test(address)\<close>\<close>
  "validateXRPLAddress address =
     (case address of
        [] \<Rightarrow> False
      | c # body \<Rightarrow> c = 114 \<and> 24 \<le> length body \<and> length body \<le> 34 \<and> list_all isBase58 body)"

section \<open>Errors\<close>

datatype exn = TypeError jsstring | OtherError jsstring
  \<comment> \<open>what the transport rejects with: a \<open>TypeError\<close> or any other error, with its message\<close>

datatype error =
    InvalidAddress         \<comment> \<open>\<open>Invalid XRPL address ...\<close>\<close>
  | NetworkError nat       \<comment> \<open>\<open>Network error: Unable to connect to XRPL server at <server>\<close>\<close>
  | ServerError nat        \<comment> \<open>\<open>XRPL server error (<status>)\<close>\<close>
  | ApiError jsstring      \<comment> \<open>\<open>XRPL API error: <message>\<close>\<close>
  | MalformedResponse      \<comment> \<open>\<open>Invalid response from XRPL server - no result field\<close>\<close>
  | MissingField           \<comment> \<open>\<open>Invalid account data response - missing account_data field\<close>\<close>
  | Rethrown exn           \<comment> \<open>an error of the transport thrown on as it is\<close>
  | NullError              \<comment> \<open>\<open>throw lastError\<close> with \<open>lastError\<close> still \<open>null\<close>\<close>
  | DuplicateToken         \<comment> \<open>\<open>This token is already in your monitoring list\<close> and
                               \<open>A token with this currency and issuer already exists\<close>\<close>
  | NotFound               \<comment> \<open>\<open>Token not found\<close>\<close>
  | PersistenceError       \<comment> \<open>\<open>Failed to save token configuration\<close>\<close>

section \<open>Token whitelist store\<close>

record TokenConfig =
  currency :: jsstring
  issuer :: jsstring
  customName :: "jsstring option"

definition DEFAULT_TOKENS :: "TokenConfig list" where
  "DEFAULT_TOKENS =
    [\<lparr>currency = lit ''GreedyJEW'', issuer = lit ''rdRvw4pKmEtSnz3cjXBL6HLJJmejtkoQ4'',
       customName = Some (lit ''GreedyJEW Token'')\<rparr>,
     \<lparr>currency = lit ''JewNomicaN'', issuer = lit ''rEz5RdLqRex7YxYZ1bEskCDHbvKy3zcUnq'',
       customName = Some (lit ''JewNomicaN'')\<rparr>,
     \<lparr>currency = lit ''HEBROID'', issuer = lit ''rdRvw4pKmEtSnz3cjXBL6HLJJmejtkoQ4'',
       customName = Some (lit ''HEBROID'')\<rparr>,
     \<lparr>currency = lit ''ASC'', issuer = lit ''r3qWgpz2ry3BhcRJ8JE6rxM8esrfhuKp4R'',
       customName = Some (lit ''Ascension'')\<rparr>,
     \<lparr>currency = lit ''RPR'', issuer = lit ''r3qWgpz2ry3BhcRJ8JE6rxM8esrfhuKp4R'',
       customName = Some (lit ''Reaper'')\<rparr>,
     \<lparr>currency = lit ''PLR'', issuer = lit ''rNSYhWLhuHvmURwWbJPBKZMSPsyG5Qek17'',
       customName = Some (lit ''Pylons'')\<rparr>,
     \<lparr>currency = lit ''ARK'', issuer = lit ''rf5Jzzy6oAFBJjLhokha1v8pXVgYYjee3b'',
       customName = Some (lit ''Ark Institute'')\<rparr>,
     \<lparr>currency = lit ''Schmeckles'', issuer = lit ''rPxw83ZP6thv7KmG5DpAW4cDW55DZRZ9wu'',
       customName = Some (lit ''Schmeckles'')\<rparr>,
     \<lparr>currency = lit ''MKS'', issuer = lit ''rwU8xXxSQPzqX7DEfeSUdUjb5NB17ixkzJ'',
       customName = Some (lit ''MKS'')\<rparr>,
     \<lparr>currency = lit ''TriForce'', issuer = lit ''rGeevxdLguXxvh7RmUmMEXr7DSRNTXPRpX'',
       customName = Some (lit ''TriForce'')\<rparr>,
     \<lparr>currency = lit ''DeerChickenn'', issuer = lit ''rw3DPxgusRrvdsbXSjHdXD14ogkNidTTRx'',
       customName = Some (lit ''DeerChickenn'')\<rparr>]"

text \<open>
  The item under \<open>STORAGE_KEY\<close>: absent (or the empty string, which \<open>!stored\<close> treats
  alike), text that \<open>JSON.parse\<close> rejects (a read that throws ends in the same \<open>catch\<close>),
  or the serialised list of entries. \<open>JSON.parse (JSON.stringify tokens)\<close> is a
  structural copy of \<open>tokens\<close>.
\<close>

datatype stored = NoItem | Unparsable | Parsed "TokenConfig list"

text \<open>
  The module state: the array object bound to \<open>DEFAULT_TOKENS\<close> (a \<open>const\<close> binding, but
  \<open>loadTokenConfig\<close> hands out the array itself and \<open>addToken\<close>/\<open>updateToken\<close> write
  into what they get), the stored item, and the environment's answer to
  \<open>localStorage.setItem\<close> (it throws when \<open>accepts\<close> is false for the list written).
\<close>

record config_state =
  default_tokens :: "TokenConfig list"
  storage :: stored
  accepts :: "TokenConfig list \<Rightarrow> bool"

datatype array_ref = DefaultsArray | FreshArray "TokenConfig list"
  \<comment> \<open>an array value in hand: the shared \<open>DEFAULT_TOKENS\<close> object, or an array of its own\<close>

definition contents :: "config_state \<Rightarrow> array_ref \<Rightarrow> TokenConfig list" where
  "contents s r = (case r of DefaultsArray \<Rightarrow> default_tokens s | FreshArray ts \<Rightarrow> ts)"

definition push :: "array_ref \<Rightarrow> TokenConfig \<Rightarrow> config_state \<Rightarrow> array_ref \<times> config_state" where
  \<comment> \<open>\<open>tokens.push(token)\<close>\<close>
  "push r token s =
     (case r of
        DefaultsArray \<Rightarrow> (DefaultsArray, s\<lparr>default_tokens := default_tokens s @ [token]\<rparr>)
      | FreshArray ts \<Rightarrow> (FreshArray (ts @ [token]), s))"

definition assign :: "array_ref \<Rightarrow> nat \<Rightarrow> TokenConfig \<Rightarrow> config_state \<Rightarrow> array_ref \<times> config_state" where
  \<comment> \<open>\<open>tokens[index] = newToken\<close>, for an index within the array\<close>
  "assign r index token s =
     (case r of
        DefaultsArray \<Rightarrow> (DefaultsArray, s\<lparr>default_tokens := (default_tokens s)[index := token]\<rparr>)
      | FreshArray ts \<Rightarrow> (FreshArray (ts[index := token]), s))"

definition saveTokenConfig :: "TokenConfig list \<Rightarrow> config_state \<Rightarrow> (error + unit) \<times> config_state" where
  "saveTokenConfig tokens s =
     (if accepts s tokens then (Inr (), s\<lparr>storage := Parsed tokens\<rparr>)
      else (Inl PersistenceError, s))"

definition mergeDefaults :: "TokenConfig list \<Rightarrow> TokenConfig list \<Rightarrow> TokenConfig list" where
  \<comment> \<open>the \<open>forEach\<close> of \<open>loadTokenConfig\<close>: \<open>merged\<close> starts as a copy of \<open>parsed\<close>\<close>
  "mergeDefaults parsed defaults =
     foldl (\<lambda>merged defaultToken.
              if list_ex (\<lambda>t. currency t = currency defaultToken \<and> issuer t = issuer defaultToken) merged
              then merged else merged @ [defaultToken])
       parsed defaults"

definition loadTokenConfig :: "config_state \<Rightarrow> array_ref \<times> config_state" where
  \<comment> \<open>every error inside the \<open>try\<close>, a failed save included, ends in the \<open>catch\<close>, which
      returns \<open>DEFAULT_TOKENS\<close>\<close>
  "loadTokenConfig s =
     (case storage s of
        NoItem \<Rightarrow>
          (case saveTokenConfig (default_tokens s) s of
             (Inr _, s') \<Rightarrow> (DefaultsArray, s')
           | (Inl _, s') \<Rightarrow> (DefaultsArray, s'))
      | Unparsable \<Rightarrow> (DefaultsArray, s)
      | Parsed parsed \<Rightarrow>
          if length parsed < length (default_tokens s) then
            (let merged = mergeDefaults parsed (default_tokens s)
             in case saveTokenConfig merged s of
                  (Inr _, s') \<Rightarrow> (FreshArray merged, s')
                | (Inl _, s') \<Rightarrow> (DefaultsArray, s'))
          else (FreshArray parsed, s))"

definition addToken :: "TokenConfig \<Rightarrow> config_state \<Rightarrow> (error + unit) \<times> config_state" where
  "addToken token s =
     (let (tokens, s1) = loadTokenConfig s
      in if \<not> validateXRPLAddress (issuer token) then (Inl InvalidAddress, s1)
         else if list_ex (\<lambda>t. currency t = currency token \<and> issuer t = issuer token) (contents s1 tokens)
         then (Inl DuplicateToken, s1)
         else (let (tokens', s2) = push tokens token s1
               in saveTokenConfig (contents s2 tokens') s2))"

definition removeToken :: "jsstring \<Rightarrow> jsstring \<Rightarrow> config_state \<Rightarrow> (error + unit) \<times> config_state" where
  "removeToken cur iss s =
     (let (tokens, s1) = loadTokenConfig s;
          filtered = filter (\<lambda>t. \<not> (currency t = cur \<and> issuer t = iss)) (contents s1 tokens)
      in saveTokenConfig filtered s1)"

fun findIndex :: "('a \<Rightarrow> bool) \<Rightarrow> 'a list \<Rightarrow> nat option" where
  \<comment> \<open>\<open>Array.prototype.findIndex\<close>; \<open>None\<close> is \<open>-1\<close>\<close>
  "findIndex P [] = None"
| "findIndex P (x # xs) = (if P x then Some 0 else map_option Suc (findIndex P xs))"

definition updateToken ::
  "jsstring \<Rightarrow> jsstring \<Rightarrow> TokenConfig \<Rightarrow> config_state \<Rightarrow> (error + unit) \<times> config_state" where
  "updateToken oldCurrency oldIssuer newToken s =
     (if \<not> validateXRPLAddress (issuer newToken) then (Inl InvalidAddress, s)
      else
        (let (tokens, s1) = loadTokenConfig s
         in case findIndex (\<lambda>t. currency t = oldCurrency \<and> issuer t = oldIssuer) (contents s1 tokens) of
              None \<Rightarrow> (Inl NotFound, s1)
            | Some index \<Rightarrow>
                if list_ex (\<lambda>i. i \<noteq> index \<and> currency (contents s1 tokens ! i) = currency newToken \<and>
                                   issuer (contents s1 tokens ! i) = issuer newToken)
                     [0..<length (contents s1 tokens)]
                then (Inl DuplicateToken, s1)
                else (let (tokens', s2) = assign tokens index newToken s1
                      in saveTokenConfig (contents s2 tokens') s2)))"


section \<open>Ledger RPC client\<close>

definition XRPL_SERVERS :: "string list" where
  "XRPL_SERVERS = [''https://xrplcluster.com'', ''https://s1.ripple.com:51234'',
                   ''https://s2.ripple.com:51234'']"

text \<open>
  The \<open>result\<close> object of a response, as far as the client reads it. What an account-data
  payload, a trust line or an NFT holds is never inspected: their types are parameters.
\<close>

record ('a, 'l, 'n) result =
  error :: "jsstring option"
  error_message :: "jsstring option"
  account_data :: "'a option"
  lines :: "'l list option"
  account_nfts :: "'n list option"

text \<open>
  What one call of \<open>fetch\<close> meets: the promise rejects, or a response arrives with its
  status and a body; reading the body (\<open>text()\<close> when the status is not 2xx, \<open>json()\<close>
  otherwise) either throws (as reading \<open>data.result\<close> of a \<open>null\<close> body does) or gives
  the data, whose \<open>result\<close> field may be missing.
\<close>

datatype ('a, 'l, 'n) reply =
    FetchRejects exn
  | Response nat "exn + ('a, 'l, 'n) result option"

text \<open>
  The client's state: the module variable \<open>currentServerIndex\<close>, and two logs that make
  its effects visible: the server index of every \<open>fetch\<close> call made, and every delay
  handed to \<open>setTimeout\<close>. The network is a parameter \<open>net\<close>: its \<open>k\<close>-th entry answers
  the \<open>k\<close>-th call of \<open>fetch\<close> made so far.
\<close>

record client_state =
  currentServerIndex :: nat
  sent :: "nat list"
  waits :: "nat list"

fun includes_js :: "jsstring \<Rightarrow> jsstring \<Rightarrow> bool" where
  \<comment> \<open>\<open>s.includes(pat)\<close>\<close>
  "includes_js [] pat = (pat = [])"
| "includes_js (c # s) pat = (take (length pat) (c # s) = pat \<or> includes_js s pat)"

definition truthy :: "jsstring option \<Rightarrow> bool" where
  \<comment> \<open>a string-valued field is truthy when it is present and not empty\<close>
  "truthy v = (case v of None \<Rightarrow> False | Some x \<Rightarrow> x \<noteq> [])"

definition caught :: "exn \<Rightarrow> nat \<Rightarrow> error" where
  \<comment> \<open>the \<open>catch\<close> of \<open>makeXRPLRequest\<close> on an error of the transport\<close>
  "caught e server =
     (case e of
        TypeError message \<Rightarrow>
          if includes_js message (lit ''fetch'') then NetworkError server else Rethrown e
      | OtherError message \<Rightarrow> Rethrown e)"

definition makeXRPLRequest ::
  "(nat \<Rightarrow> ('a, 'l, 'n) reply) \<Rightarrow> string \<Rightarrow> jsstring \<Rightarrow> client_state \<Rightarrow>
     (error + ('a, 'l, 'n) result) \<times> client_state" where
  \<comment> \<open>\<open>params\<close> is always \<open>[{account, ledger_index: 'validated'}]\<close>; errors the function
      throws itself are plain \<open>Error\<close>s, which its \<open>catch\<close> throws on unchanged\<close>
  "makeXRPLRequest net method acct s =
     (let server = currentServerIndex s
      in if acct \<noteq> [] \<and> \<not> validateXRPLAddress acct then (Inl InvalidAddress, s)
         else
           (let s1 = s\<lparr>sent := sent s @ [server]\<rparr>
            in case net (length (sent s)) of
                 FetchRejects e \<Rightarrow> (Inl (caught e server), s1)
               | Response status body \<Rightarrow>
                   if \<not> (200 \<le> status \<and> status \<le> 299) then
                     (case body of
                        Inl e \<Rightarrow> (Inl (caught e server), s1)
                      | Inr _ \<Rightarrow>
                          (Inl (ServerError status),
                           if currentServerIndex s1 < length XRPL_SERVERS - 1
                           then s1\<lparr>currentServerIndex := currentServerIndex s1 + 1\<rparr> else s1))
                   else
                     (case body of
                        Inl e \<Rightarrow> (Inl (caught e server), s1)
                      | Inr None \<Rightarrow> (Inl MalformedResponse, s1)
                      | Inr (Some r) \<Rightarrow>
                          if truthy (error r) then
                            (Inl (ApiError (if truthy (error_message r) then the (error_message r)
                                            else the (error r))), s1)
                          else (Inr r, s1))))"

function retryLoop ::
  "(client_state \<Rightarrow> (error + 'r) \<times> client_state) \<Rightarrow> nat \<Rightarrow> nat \<Rightarrow> nat \<Rightarrow> error option \<Rightarrow>
     client_state \<Rightarrow> (error + 'r) \<times> client_state" where
  \<comment> \<open>the \<open>for\<close> loop of \<open>retryWithBackoff\<close> from \<open>attempt\<close> on, and the \<open>throw\<close> after it\<close>
  "retryLoop fn maxRetries initialDelay attempt lastError s =
     (if attempt < maxRetries then
        (case fn s of
           (Inr v, s1) \<Rightarrow> (Inr v, s1)
         | (Inl e, s1) \<Rightarrow>
             retryLoop fn maxRetries initialDelay (attempt + 1) (Some e)
               (if attempt < maxRetries - 1
                then s1\<lparr>waits := waits s1 @ [initialDelay * 2 ^ attempt]\<rparr> else s1))
      else (Inl (case lastError of None \<Rightarrow> NullError | Some e \<Rightarrow> e), s))"
  by pat_completeness auto
termination
  by (relation "measure (\<lambda>(fn, maxRetries, initialDelay, attempt, lastError, s). maxRetries - attempt)")
    auto

declare retryLoop.simps [simp del]

definition retryWithBackoff ::
  "(client_state \<Rightarrow> (error + 'r) \<times> client_state) \<Rightarrow> nat \<Rightarrow> nat \<Rightarrow>
     client_state \<Rightarrow> (error + 'r) \<times> client_state" where
  \<comment> \<open>every caller takes the defaults \<open>maxRetries = 3\<close> and \<open>initialDelay = 1000\<close>. An error
      caught here is an \<open>Error\<close> already, so \<open>lastError\<close> is the error itself.\<close>
  "retryWithBackoff fn maxRetries initialDelay s = retryLoop fn maxRetries initialDelay 0 None s"

definition fetchAccountInfo ::
  "(nat \<Rightarrow> ('a, 'l, 'n) reply) \<Rightarrow> jsstring \<Rightarrow> client_state \<Rightarrow> (error + 'a) \<times> client_state" where
  "fetchAccountInfo net acct s =
     (if \<not> validateXRPLAddress acct then (Inl InvalidAddress, s)
      else
        (case retryWithBackoff (makeXRPLRequest net ''account_info'' acct) 3 1000 s of
           (Inl e, s1) \<Rightarrow> (Inl e, s1)
         | (Inr r, s1) \<Rightarrow>
             (case account_data r of
                None \<Rightarrow> (Inl MissingField, s1)
              | Some d \<Rightarrow> (Inr d, s1))))"

definition fetchAccountLines ::
  "(nat \<Rightarrow> ('a, 'l, 'n) reply) \<Rightarrow> jsstring \<Rightarrow> client_state \<Rightarrow> (error + 'l list) \<times> client_state" where
  "fetchAccountLines net acct s =
     (if \<not> validateXRPLAddress acct then (Inl InvalidAddress, s)
      else
        (case retryWithBackoff (makeXRPLRequest net ''account_lines'' acct) 3 1000 s of
           (Inl e, s1) \<Rightarrow> (Inl e, s1)
         | (Inr r, s1) \<Rightarrow> (Inr (case lines r of None \<Rightarrow> [] | Some ls \<Rightarrow> ls), s1)))"

definition fetchAccountNFTs ::
  "(nat \<Rightarrow> ('a, 'l, 'n) reply) \<Rightarrow> jsstring \<Rightarrow> client_state \<Rightarrow> (error + 'n list) \<times> client_state" where
  \<comment> \<open>the address check stands before the \<open>try\<close>; the \<open>catch\<close> returns \<open>[]\<close>\<close>
  "fetchAccountNFTs net acct s =
     (if \<not> validateXRPLAddress acct then (Inl InvalidAddress, s)
      else
        (case retryWithBackoff (makeXRPLRequest net ''account_nfts'' acct) 3 1000 s of
           (Inl e, s1) \<Rightarrow> (Inr [], s1)
         | (Inr r, s1) \<Rightarrow> (Inr (case account_nfts r of None \<Rightarrow> [] | Some ns \<Rightarrow> ns), s1)))"

section \<open>Reference definitions\<close>

text \<open>
  The properties below are stated against these definitions, which follow the wording of
  the specification and not the code, and are evaluated on the sample states and
  networks defined with them.
\<close>

subsection \<open>Codec\<close>

definition isUpperHexDigit :: "code_unit \<Rightarrow> bool" where
  "isUpperHexDigit c \<longleftrightarrow> (let n = unat c in (48 \<le> n \<and> n \<le> 57) \<or> (65 \<le> n \<and> n \<le> 70))"

definition upperHexDigit :: "nat \<Rightarrow> code_unit" where
  "upperHexDigit d = (if d < 10 then of_nat (48 + d) else of_nat (55 + d))"

definition byteHex :: "code_unit \<Rightarrow> jsstring" where
  \<comment> \<open>a character code below 256 as a byte of two uppercase hex digits\<close>
  "byteHex c = [upperHexDigit (unat c div 16), upperHexDigit (unat c mod 16)]"

definition encode_ref :: "jsstring \<Rightarrow> jsstring" where
  "encode_ref s = (if length s = 3 then s else padEnd 40 48 (concat (map byteHex s)))"

definition is40Hex :: "jsstring \<Rightarrow> bool" where
  "is40Hex s \<longleftrightarrow> length s = 40 \<and> list_all isHexDigit s"

fun byteValues :: "jsstring \<Rightarrow> nat list" where
  \<comment> \<open>the bytes that consecutive pairs of hex digits denote\<close>
  "byteValues (a # b # rest) = (16 * digitVal a + digitVal b) # byteValues rest"
| "byteValues _ = []"

definition trimEnd :: "jsstring \<Rightarrow> jsstring" where
  "trimEnd s = rev (dropWhile isWhiteSpace (rev s))"

definition decode_spec :: "jsstring \<Rightarrow> jsstring" where
  \<comment> \<open>as the specification words it: trailing white space is trimmed\<close>
  "decode_spec s =
     (if \<not> is40Hex s then s
      else let str = map of_nat (takeWhile (\<lambda>b. b \<noteq> 0) (byteValues s))
           in if trimEnd str = [] then s else trimEnd str)"

definition decode_ref :: "jsstring \<Rightarrow> jsstring" where
  \<comment> \<open>the same with white space trimmed from both ends\<close>
  "decode_ref s =
     (if \<not> is40Hex s then s
      else let str = map of_nat (takeWhile (\<lambda>b. b \<noteq> 0) (byteValues s))
           in if trim str = [] then s else trim str)"

subsection \<open>Whitelist\<close>

definition key :: "TokenConfig \<Rightarrow> jsstring \<times> jsstring" where
  "key t = (currency t, issuer t)"

definition loaded :: "config_state \<Rightarrow> TokenConfig list" where
  \<comment> \<open>the list that \<open>load()\<close> returns\<close>
  "loaded s = (case loadTokenConfig s of (tokens, s1) \<Rightarrow> contents s1 tokens)"

definition merged_ref :: "TokenConfig list \<Rightarrow> TokenConfig list \<Rightarrow> TokenConfig list" where
  \<comment> \<open>the stored entries, then every default entry whose key is absent from them\<close>
  "merged_ref ts defaults = ts @ filter (\<lambda>d. key d \<notin> set (map key ts)) defaults"

definition store_inv :: "config_state \<Rightarrow> bool" where
  \<comment> \<open>no two entries share a key, in the stored list and in the default list\<close>
  "store_inv s \<longleftrightarrow>
     distinct (map key (default_tokens s)) \<and>
     (case storage s of Parsed ts \<Rightarrow> distinct (map key ts) | _ \<Rightarrow> True)"



definition initial_config :: config_state where
  \<comment> \<open>a first run: nothing stored, every write accepted\<close>
  "initial_config = \<lparr>default_tokens = DEFAULT_TOKENS, storage = NoItem, accepts = (\<lambda>_. True)\<rparr>"

definition full_config :: config_state where
  \<comment> \<open>the default list stored as it is\<close>
  "full_config = initial_config\<lparr>storage := Parsed DEFAULT_TOKENS\<rparr>"

definition abc_token :: TokenConfig where
  "abc_token = \<lparr>currency = lit ''ABC'', issuer = lit ''rw3DPxgusRrvdsbXSjHdXD14ogkNidTTRx'',
                 customName = None\<rparr>"

definition abc_hex_token :: TokenConfig where
  "abc_hex_token = \<lparr>currency = lit ''4142430000000000000000000000000000000000'',
                     issuer = lit ''rw3DPxgusRrvdsbXSjHdXD14ogkNidTTRx'', customName = None\<rparr>"

definition short_config :: config_state where
  \<comment> \<open>one stored entry, fewer than the default list holds\<close>
  "short_config = initial_config\<lparr>storage := Parsed [abc_token]\<rparr>"

definition rejecting_config :: config_state where
  \<comment> \<open>the same with a storage that rejects every write\<close>
  "rejecting_config = short_config\<lparr>accepts := (\<lambda>_. False)\<rparr>"

definition greedy_plain :: TokenConfig where
  "greedy_plain = \<lparr>currency = lit ''GreedyJEW'', issuer = lit ''rw3DPxgusRrvdsbXSjHdXD14ogkNidTTRx'',
                    customName = None\<rparr>"

definition greedy_hex :: TokenConfig where
  "greedy_hex = \<lparr>currency = lit ''4772656564794A45570000000000000000000000'',
                  issuer = lit ''rw3DPxgusRrvdsbXSjHdXD14ogkNidTTRx'', customName = None\<rparr>"

subsection \<open>Client\<close>

definition failing :: "('a, 'l, 'n) reply \<Rightarrow> bool" where
  \<comment> \<open>a transport error, a status that is not 2xx, a body that cannot be read, a missing
      \<open>result\<close>, or an error payload\<close>
  "failing r =
     (case r of
        FetchRejects e \<Rightarrow> True
      | Response status body \<Rightarrow>
          \<not> (200 \<le> status \<and> status \<le> 299) \<or>
          (case body of Inl e \<Rightarrow> True | Inr None \<Rightarrow> True | Inr (Some x) \<Rightarrow> truthy (error x)))"

definition initial_client :: client_state where
  "initial_client = \<lparr>currentServerIndex = 0, sent = [], waits = []\<rparr>"

definition wallet :: jsstring where
  "wallet = lit ''rdRvw4pKmEtSnz3cjXBL6HLJJmejtkoQ4''"

definition unreachable :: "nat \<Rightarrow> (unit, nat, nat) reply" where
  \<comment> \<open>a network on which every call of \<open>fetch\<close> rejects\<close>
  "unreachable k = FetchRejects (TypeError (lit ''Failed to fetch''))"

definition flaky :: "nat \<Rightarrow> (unit, nat, nat) reply" where
  \<comment> \<open>a status 503 twice, then a result with two trust lines\<close>
  "flaky k =
     (if k < 2 then Response 503 (Inr None)
      else Response 200 (Inr (Some \<lparr>error = None, error_message = None, account_data = None,
                                     lines = Some [7, 8], account_nfts = None\<rparr>)))"

definition rejected :: "nat \<Rightarrow> (unit, nat, nat) reply" where
  \<comment> \<open>a network on which every call is answered by a well-formed error payload\<close>
  "rejected k = Response 200 (Inr (Some \<lparr>error = Some (lit ''actNotFound''),
     error_message = Some (lit ''Account not found.''), account_data = None, lines = None,
     account_nfts = None\<rparr>))"

definition attempts :: "client_state \<Rightarrow> client_state \<Rightarrow> nat" where
  \<comment> \<open>the calls of \<open>fetch\<close> made between two states\<close>
  "attempts s s' = length (sent s') - length (sent s)"

definition delays :: "client_state \<Rightarrow> client_state \<Rightarrow> nat list" where
  \<comment> \<open>the delays waited between two states\<close>
  "delays s s' = drop (length (waits s)) (waits s')"

definition retried :: "(nat \<Rightarrow> ('a, 'l, 'n) reply) \<Rightarrow> client_state \<Rightarrow> client_state \<Rightarrow> bool" where
  \<comment> \<open>the retry policy: requests go out until the first reply that does not fail, three at
      most, with 1000 and then 2000 time units waited between them\<close>
  "retried net s s' \<longleftrightarrow>
     (let n = length (sent s); k = attempts s s'
      in 1 \<le> k \<and> k \<le> 3 \<and> delays s s' = take (k - 1) [1000, 2000] \<and>
         list_all (\<lambda>j. failing (net (n + j))) [0..<k - 1] \<and>
         (k < 3 \<longrightarrow> \<not> failing (net (n + k - 1))))"

section \<open>Properties of the codec\<close>

lemmas eval_codec = lit_def hexToString_def stringToHex_def parseInt16_def trim_def
  isWhiteSpace_def isHexDigit_def digitVal_def fromCharCode_def toUpperCase_def toLowerCase_def
  upperUnit_def lowerUnit_def padEnd_def padStart_def hexDigit_def toString16.simps is40Hex_def

lemma replicate_num: "replicate (numeral k) x = x # replicate (pred_numeral k) x"
  by (simp add: numeral_eq_Suc)

lemma hex_not_sign: "isHexDigit c \<Longrightarrow> c \<noteq> 45 \<and> c \<noteq> 43 \<and> c \<noteq> 120 \<and> c \<noteq> 88"
  unfolding isHexDigit_def Let_def by auto

lemma hex_not_ws: "isHexDigit c \<Longrightarrow> \<not> isWhiteSpace c"
  unfolding isHexDigit_def isWhiteSpace_def Let_def by arith

lemma lt16: "(d::nat) < 16 \<Longrightarrow> d \<in> {0,1,2,3,4,5,6,7,8,9,10,11,12,13,14,15}"
proof -
  assume "d < 16"
  then have "d \<in> {0..<16}" by simp
  then show ?thesis by (auto simp add: atLeastLessThan_nat_numeral)
qed

lemma upperUnit_hexDigit:
  assumes "d < 16"
  shows "upperUnit (hexDigit d) = upperHexDigit d"
  using lt16 [OF assms]
  by (auto simp: upperUnit_def hexDigit_def upperHexDigit_def)

lemma upperHexDigit_props:
  assumes "d < 16"
  shows "isUpperHexDigit (upperHexDigit d) \<and> digitVal (upperHexDigit d) = d"
  using lt16 [OF assms]
  by (auto simp: upperHexDigit_def digitVal_def isUpperHexDigit_def)

lemma upper_is_hex: "isUpperHexDigit c \<Longrightarrow> isHexDigit c"
  by (auto simp: isUpperHexDigit_def isHexDigit_def Let_def)

lemma parse_pair:
  assumes "isHexDigit a" "isHexDigit b"
  shows "parseInt16 [a, b] = Some (int (16 * digitVal a + digitVal b))"
  using hex_not_ws [OF assms(1)] hex_not_sign [OF assms(1)] hex_not_sign [OF assms(2)] assms
  by (simp add: parseInt16_def)

lemma toString16_byte:
  assumes "n < 256"
  shows "padStart 2 48 (toString16 n) = [hexDigit (n div 16), hexDigit (n mod 16)]"
proof (cases "n < 16")
  case True
  then show ?thesis by (simp add: toString16.simps [of n] padStart_def hexDigit_def)
next
  case False
  with assms have "n div 16 < 16" by simp
  with False show ?thesis
    by (simp add: toString16.simps [of n] toString16.simps [of "n div 16"] padStart_def)
qed

lemma upper_byte:
  assumes "unat c \<le> 255"
  shows "toUpperCase (padStart 2 48 (toString16 (unat c))) = byteHex c"
proof -
  have "unat c < 256" using assms by simp
  moreover have "unat c div 16 < 16" "unat c mod 16 < 16" using assms by simp_all
  ultimately show ?thesis
    by (simp add: toString16_byte toUpperCase_def byteHex_def upperUnit_hexDigit)
qed

lemma upper_concat:
  assumes "\<forall>c\<in>set s. unat c \<le> 255"
  shows "toUpperCase (concat (map (\<lambda>c. padStart 2 48 (toString16 (unat c))) s)) = concat (map byteHex s)"
  using assms
proof (induction s)
  case Nil
  then show ?case by (simp add: toUpperCase_def)
next
  case (Cons c s)
  have "toUpperCase (padStart 2 48 (toString16 (unat c))) = byteHex c"
    using Cons.prems by (simp add: upper_byte)
  moreover have "toUpperCase (concat (map (\<lambda>c. padStart 2 48 (toString16 (unat c))) s)) = concat (map byteHex s)"
    using Cons by simp
  ultimately show ?case by (simp add: toUpperCase_def)
qed

lemma length_concat_byteHex: "length (concat (map byteHex s)) = 2 * length s"
  by (induction s) (simp_all add: byteHex_def)

lemma stringToHex_bytes:
  assumes "length s \<noteq> 3" "\<forall>c\<in>set s. unat c \<le> 255"
  shows "stringToHex s = concat (map byteHex s) @ replicate (40 - 2 * length s) 48"
proof -
  let ?h = "concat (map (\<lambda>c. padStart 2 48 (toString16 (unat c))) s)"
  have len: "length ?h = 2 * length s"
    using upper_concat [OF assms(2)] length_concat_byteHex [of s]
    by (metis length_map toUpperCase_def)
  have "stringToHex s = toUpperCase ?h @ toUpperCase (replicate (40 - length ?h) 48)"
    using assms(1) by (simp add: stringToHex_def padEnd_def toUpperCase_def)
  also have "toUpperCase (replicate (40 - length ?h) 48) = replicate (40 - 2 * length s) 48"
    by (simp add: len toUpperCase_def upperUnit_def)
  finally show ?thesis by (simp add: upper_concat [OF assms(2)])
qed

lemma byteHex_at:
  "i < length s \<Longrightarrow> take 2 (drop (2 * i) (concat (map byteHex s) @ p)) = byteHex (s ! i)"
proof (induction s arbitrary: i)
  case Nil
  then show ?case by simp
next
  case (Cons c s)
  show ?case
  proof (cases i)
    case 0
    then show ?thesis by (simp add: byteHex_def)
  next
    case (Suc j)
    with Cons.prems have "j < length s" by simp
    from Cons.IH [OF this] Suc show ?thesis by (simp add: byteHex_def)
  qed
qed

lemma parse_byteHex:
  assumes "unat c \<le> 255"
  shows "parseInt16 (byteHex c) = Some (int (unat c))"
proof -
  have d: "unat c div 16 < 16" "unat c mod 16 < 16" using assms by simp_all
  have "parseInt16 (byteHex c) = Some (int (16 * (unat c div 16) + unat c mod 16))"
    unfolding byteHex_def
    using upperHexDigit_props [OF d(1)] upperHexDigit_props [OF d(2)]
    by (simp add: parse_pair upper_is_hex)
  then show ?thesis by simp
qed

lemma all_upper_concat:
  assumes "\<forall>c\<in>set s. unat c \<le> 255"
  shows "list_all isUpperHexDigit (concat (map byteHex s))"
  using assms
proof (induction s)
  case Nil
  then show ?case by simp
next
  case (Cons c s)
  have c: "unat c \<le> 255" using Cons.prems by simp
  have d: "unat c div 16 < 16" "unat c mod 16 < 16" using c by simp_all
  show ?case
    using Cons upperHexDigit_props [OF d(1)] upperHexDigit_props [OF d(2)]
    by (simp add: byteHex_def)
qed

text \<open>
  Claim C5, as the code has it. A string of length 3 is returned unchanged. A string of
  another length, at most 20 code units long and with every character code at most 255,
  is encoded as the reference definition says: each character becomes a byte of two hex
  digits, the result is padded with \<open>0\<close> to exactly 40 characters, all of them uppercase
  hex digits, and its first \<open>2 * length s\<close> digits are the character codes of \<open>s\<close>.
\<close>

theorem stringToHex_encode:
  "(length s = 3 \<longrightarrow> stringToHex s = s) \<and>
   (length s \<noteq> 3 \<and> length s \<le> 20 \<and> (\<forall>c\<in>set s. unat c \<le> 255) \<longrightarrow>
      stringToHex s = encode_ref s \<and>
      length (stringToHex s) = 40 \<and>
      list_all isUpperHexDigit (stringToHex s) \<and>
      (\<forall>i<length s. parseInt16 (take 2 (drop (2 * i) (stringToHex s))) = Some (int (unat (s ! i)))))"
proof (intro conjI impI)
  assume "length s = 3"
  then show "stringToHex s = s" by (simp add: stringToHex_def)
next
  assume a: "length s \<noteq> 3 \<and> length s \<le> 20 \<and> (\<forall>c\<in>set s. unat c \<le> 255)"
  then have eq: "stringToHex s = concat (map byteHex s) @ replicate (40 - 2 * length s) 48"
    by (simp add: stringToHex_bytes)
  show "stringToHex s = encode_ref s"
    using a by (simp add: eq encode_ref_def padEnd_def length_concat_byteHex)
  show "length (stringToHex s) = 40"
    using a by (simp add: eq length_concat_byteHex)
  show "list_all isUpperHexDigit (stringToHex s)"
    using a all_upper_concat [of s] by (auto simp: eq list_all_iff isUpperHexDigit_def)
  show "\<forall>i<length s. parseInt16 (take 2 (drop (2 * i) (stringToHex s))) = Some (int (unat (s ! i)))"
  proof (intro allI impI)
    fix i assume i: "i < length s"
    have "take 2 (drop (2 * i) (stringToHex s)) = byteHex (s ! i)"
      unfolding eq by (rule byteHex_at [OF i])
    moreover have "unat (s ! i) \<le> 255" using a i by simp
    ultimately show "parseInt16 (take 2 (drop (2 * i) (stringToHex s))) = Some (int (unat (s ! i)))"
      by (simp add: parse_byteHex)
  qed
qed

theorem stringToHex_encode_witness:
  "stringToHex (lit ''GreedyJEW'') = lit ''4772656564794A45570000000000000000000000'' \<and>
   length (stringToHex (lit ''GreedyJEW'')) = 40 \<and>
   stringToHex (lit ''ASC'') = lit ''ASC''"
  using stringToHex_encode [of "lit ''GreedyJEW''"] stringToHex_encode [of "lit ''ASC''"]
  by (simp add: lit_def encode_ref_def byteHex_def upperHexDigit_def padEnd_def replicate_num)

text \<open>
  The claim as stated fails on a string of 21 characters, whose encoding has 42 hex
  digits, and on a character code above 255, which is written with four hex digits.
\<close>

theorem stringToHex_encode_counterexample:
  "length (lit ''ABCDEFGHIJKLMNOPQRSTU'') \<noteq> 3 \<and>
   length (stringToHex (lit ''ABCDEFGHIJKLMNOPQRSTU'')) \<noteq> 40 \<and>
   length [0x263A :: code_unit] \<noteq> 3 \<and>
   parseInt16 (take 2 (stringToHex [0x263A])) \<noteq> Some (int (unat (0x263A :: code_unit)))"
  by (simp add: eval_codec)

lemma parse_zero: "parseInt16 [48, 48] = Some 0"
  by (simp add: parseInt16_def isWhiteSpace_def isHexDigit_def digitVal_def)

lemma decodeLoop_zeros: "decodeLoop (replicate (2 * k) 48) = []"
  by (cases k) (simp_all add: parse_zero)

lemma decodeLoop_bytes:
  assumes "\<forall>c\<in>set x. 1 \<le> unat c \<and> unat c \<le> 255"
  shows "decodeLoop (concat (map byteHex x) @ replicate (2 * k) 48) = x"
  using assms
proof (induction x)
  case Nil
  then show ?case using decodeLoop_zeros [of k] by simp
next
  case (Cons c x)
  have c: "1 \<le> unat c" "unat c \<le> 255" using Cons.prems by simp_all
  obtain a b where ab: "byteHex c = [a, b]" by (simp add: byteHex_def)
  have p: "parseInt16 [a, b] = Some (int (unat c))"
    using parse_byteHex [OF c(2)] ab by simp
  have "c \<noteq> 0" using c(1) by auto
  then have nz: "uint c \<noteq> 0" by (simp add: uint_0_iff)
  have "decodeLoop (a # b # (concat (map byteHex x) @ replicate (2 * k) 48)) =
        c # decodeLoop (concat (map byteHex x) @ replicate (2 * k) 48)"
    using nz by (simp add: p fromCharCode_def)
  then show ?case using Cons ab by simp
qed

lemma trim_id:
  assumes "x \<noteq> []" "\<not> isWhiteSpace (hd x)" "\<not> isWhiteSpace (last x)"
  shows "trim x = x"
proof -
  have "dropWhile isWhiteSpace x = x" using assms(1,2) by (cases x) simp_all
  moreover have "dropWhile isWhiteSpace (rev x) = rev x"
    using assms(1,3) by (cases x rule: rev_cases) simp_all
  ultimately show ?thesis by (simp add: trim_def)
qed

text \<open>
  Claim C10. For every string of 1 to 20 characters (length 3 included) whose character
  codes all lie in 1..255 and that neither starts nor ends with white space, decoding
  the encoding gives the string back.
\<close>

theorem codec_roundtrip:
  assumes "1 \<le> length x" "length x \<le> 20" "\<forall>c\<in>set x. 1 \<le> unat c \<and> unat c \<le> 255"
    and "\<not> isWhiteSpace (hd x)" "\<not> isWhiteSpace (last x)"
  shows "hexToString (stringToHex x) = x"
proof (cases "length x = 3")
  case True
  then show ?thesis by (simp add: stringToHex_def hexToString_def)
next
  case False
  have b: "\<forall>c\<in>set x. unat c \<le> 255" using assms(3) by simp
  have "40 - 2 * length x = 2 * (20 - length x)" using assms(2) by simp
  then have eq: "stringToHex x = concat (map byteHex x) @ replicate (2 * (20 - length x)) 48"
    using stringToHex_bytes [OF False b] by simp
  have len: "length (stringToHex x) = 40"
    using assms(2) by (simp add: eq length_concat_byteHex)
  have dec: "decodeLoop (stringToHex x) = x"
    unfolding eq by (rule decodeLoop_bytes [OF assms(3)])
  have ne: "x \<noteq> []" using assms(1) by auto
  have "trim x = x" by (rule trim_id [OF ne assms(4,5)])
  then show ?thesis using ne by (simp add: hexToString_def len dec)
qed


theorem codec_roundtrip_witness:
  "hexToString (stringToHex (lit ''GreedyJEW'')) = lit ''GreedyJEW''"
  using codec_roundtrip [of "lit ''GreedyJEW''"]
  by (simp add: lit_def isWhiteSpace_def)

lemma decodeLoop_hex:
  assumes "list_all isHexDigit s" "even (length s)"
  shows "decodeLoop s = map of_nat (takeWhile (\<lambda>b. b \<noteq> 0) (byteValues s))"
  using assms
proof (induction s rule: decodeLoop.induct)
  case 1
  then show ?case by simp
next
  case (2 a)
  then show ?case by simp
next
  case (3 a b rest)
  define n where "n = 16 * digitVal a + digitVal b"
  have p: "parseInt16 [a, b] = Some (int n)"
    using "3.prems" by (simp add: parse_pair n_def)
  have bv: "byteValues (a # b # rest) = n # byteValues rest" by (simp add: n_def)
  show ?case
  proof (cases "n = 0")
    case True
    then show ?thesis using p bv by simp
  next
    case False
    then have q: "parseInt16 [a, b] \<noteq> Some 0" using p by simp
    have "decodeLoop rest = map of_nat (takeWhile (\<lambda>b. b \<noteq> 0) (byteValues rest))"
      using "3.IH" "3.prems" q by simp
    then show ?thesis using False p q bv by (simp add: fromCharCode_def)
  qed
qed

lemma hexToString_decode_ref:
  assumes "length s \<noteq> 40 \<or> list_all isHexDigit s"
  shows "hexToString s = decode_ref s"
proof (cases "length s = 40")
  case False
  then show ?thesis by (simp add: hexToString_def decode_ref_def is40Hex_def)
next
  case True
  with assms have h: "list_all isHexDigit s" by simp
  have "decodeLoop s = map of_nat (takeWhile (\<lambda>b. b \<noteq> 0) (byteValues s))"
    using h True by (simp add: decodeLoop_hex)
  then show ?thesis using True h by (simp add: hexToString_def decode_ref_def is40Hex_def)
qed


text \<open>
  Claim C4, as the code has it. An input whose length is not 40 is returned unchanged.
  For an input of 40 hex digits the result is that of the reference definition: the
  byte pairs become characters up to the first zero byte, white space is trimmed from
  both ends, and an empty result gives the hex input back, so the result is never
  empty. A 40-character input that is not all hex digits is left out.
\<close>

theorem hexToString_decode:
  "(length s \<noteq> 40 \<longrightarrow> hexToString s = s) \<and>
   (is40Hex s \<longrightarrow> hexToString s = decode_ref s \<and> hexToString s \<noteq> [])"
proof (intro conjI impI)
  assume "length s \<noteq> 40"
  then show "hexToString s = s" by (simp add: hexToString_def)
next
  assume h: "is40Hex s"
  then show "hexToString s = decode_ref s"
    by (simp add: hexToString_decode_ref is40Hex_def)
  from h have "s \<noteq> []" by (auto simp: is40Hex_def)
  then show "hexToString s \<noteq> []" by (simp add: hexToString_def Let_def)
qed

theorem hexToString_decode_witness:
  "hexToString (lit ''4142430000000000000000000000000000000000'') = lit ''ABC'' \<and>
   hexToString (lit ''ABC'') = lit ''ABC''"
  using hexToString_decode [of "lit ''4142430000000000000000000000000000000000''"]
    hexToString_decode [of "lit ''ABC''"]
  by (simp add: decode_ref_def is40Hex_def lit_def isHexDigit_def digitVal_def trim_def
      isWhiteSpace_def)

text \<open>
  The claim as stated fails where the decoded text starts with white space (the hex of
  \<open>" ABC"\<close> decodes to \<open>"ABC"\<close>), and on 40 characters that are not hex digits, which are
  not returned unchanged.
\<close>

theorem hexToString_decode_counterexample:
  "hexToString (lit ''2041424300000000000000000000000000000000'') \<noteq>
     decode_spec (lit ''2041424300000000000000000000000000000000'') \<and>
   hexToString (lit ''GGGGGGGGGGGGGGGGGGGGGGGGGGGGGGGGGGGGGGGG'') \<noteq>
     decode_spec (lit ''GGGGGGGGGGGGGGGGGGGGGGGGGGGGGGGGGGGGGGGG'')"
  by (simp add: eval_codec decode_spec_def trimEnd_def)

section \<open>Properties of the whitelist store\<close>

lemma exists_key: "list_ex (\<lambda>t. currency t = currency d \<and> issuer t = issuer d) ts \<longleftrightarrow> key d \<in> set (map key ts)"
  unfolding list_ex_iff key_def set_map image_iff prod.inject by metis

lemma mergeDefaults_Nil: "mergeDefaults ts [] = ts"
  by (simp add: mergeDefaults_def)

lemma mergeDefaults_Cons:
  "mergeDefaults ts (d # ds) =
     (if key d \<in> set (map key ts) then mergeDefaults ts ds else mergeDefaults (ts @ [d]) ds)"
  by (simp add: mergeDefaults_def exists_key)

lemma mergeDefaults_distinct:
  "distinct (map key ts) \<Longrightarrow> distinct (map key (mergeDefaults ts ds))"
  by (induction ds arbitrary: ts) (simp_all add: mergeDefaults_Nil mergeDefaults_Cons)

lemma mergeDefaults_ref:
  "distinct (map key ds) \<Longrightarrow> mergeDefaults ts ds = merged_ref ts ds"
proof (induction ds arbitrary: ts)
  case Nil
  then show ?case by (simp add: mergeDefaults_Nil merged_ref_def)
next
  case (Cons d ds)
  have dist: "distinct (map key ds)" and notin: "key d \<notin> set (map key ds)"
    using Cons.prems by simp_all
  show ?case
  proof (cases "key d \<in> set (map key ts)")
    case True
    then show ?thesis using Cons.IH [OF dist] by (simp add: mergeDefaults_Cons merged_ref_def)
  next
    case False
    have "filter (\<lambda>x. key x \<notin> set (map key (ts @ [d]))) ds = filter (\<lambda>x. key x \<notin> set (map key ts)) ds"
    proof (intro filter_cong refl)
      fix x assume "x \<in> set ds"
      then have "key x \<noteq> key d" using notin by (metis image_eqI set_map)
      then show "(key x \<notin> set (map key (ts @ [d]))) = (key x \<notin> set (map key ts))" by auto
    qed
    then show ?thesis using False Cons.IH [OF dist, of "ts @ [d]"]
      by (simp add: mergeDefaults_Cons merged_ref_def)
  qed
qed


lemma merged_ref_length:
  assumes "distinct (map key ds)"
  shows "length ds \<le> length (merged_ref ts ds)"
proof -
  let ?present = "filter (\<lambda>d. key d \<in> set (map key ts)) ds"
  have "distinct (map key ?present)" using assms by (rule distinct_map_filter)
  then have "card (set (map key ?present)) = length (map key ?present)"
    by (rule distinct_card)
  then have "length ?present = card (set (map key ?present))" by simp
  also have "\<dots> \<le> card (set (map key ts))"
  proof (rule card_mono)
    show "finite (set (map key ts))" by (rule finite_set)
    show "set (map key ?present) \<subseteq> set (map key ts)" by auto
  qed
  also have "\<dots> \<le> length (map key ts)" by (rule card_length)
  finally have "length ?present \<le> length ts" by simp
  moreover have "length ds = length ?present + length (filter (\<lambda>d. key d \<notin> set (map key ts)) ds)"
    using sum_length_filter_compl [of "\<lambda>d. key d \<in> set (map key ts)" ds] by simp
  ultimately show ?thesis by (simp add: merged_ref_def)
qed

lemmas eval_store = initial_config_def full_config_def short_config_def rejecting_config_def
  abc_token_def abc_hex_token_def greedy_plain_def greedy_hex_def
  DEFAULT_TOKENS_def loadTokenConfig_def saveTokenConfig_def
  mergeDefaults_def contents_def loaded_def key_def merged_ref_def Let_def

lemma default_keys_distinct: "distinct (map key DEFAULT_TOKENS)"
  by (simp add: DEFAULT_TOKENS_def key_def lit_def)

lemma default_shape:
  "list_all (\<lambda>t. validateXRPLAddress (issuer t) \<and> customName t \<noteq> None) DEFAULT_TOKENS"
  by (simp add: DEFAULT_TOKENS_def lit_def validateXRPLAddress_def isBase58_def)

text \<open>
  Claim C2, as the code has it. When the stored list is shorter than the default list
  (which has no two entries with one key, as the canonical list has) and the storage
  accepts the write, \<open>load()\<close> returns every stored entry unchanged and in order, followed
  by every default entry whose key is absent from the stored entries; that list is
  persisted, and it is at least as long as the default list. When the storage rejects
  the write, \<open>load()\<close> returns the default list and the stored item stays as it was.
\<close>

theorem loadTokenConfig_merge:
  assumes "storage s = Parsed ts" and "length ts < length (default_tokens s)"
    and "distinct (map key (default_tokens s))"
  shows "(accepts s (merged_ref ts (default_tokens s)) \<longrightarrow>
            loaded s = merged_ref ts (default_tokens s) \<and>
            storage (snd (loadTokenConfig s)) = Parsed (merged_ref ts (default_tokens s)) \<and>
            length (default_tokens s) \<le> length (loaded s)) \<and>
         (\<not> accepts s (merged_ref ts (default_tokens s)) \<longrightarrow>
            loaded s = default_tokens s \<and> snd (loadTokenConfig s) = s)"
proof -
  have m: "mergeDefaults ts (default_tokens s) = merged_ref ts (default_tokens s)"
    by (rule mergeDefaults_ref [OF assms(3)])
  show ?thesis
  proof (cases "accepts s (merged_ref ts (default_tokens s))")
    case True
    then have l: "loadTokenConfig s =
      (FreshArray (merged_ref ts (default_tokens s)),
       s\<lparr>storage := Parsed (merged_ref ts (default_tokens s))\<rparr>)"
      using assms(1,2) by (simp add: loadTokenConfig_def m saveTokenConfig_def Let_def)
    show ?thesis
      using True merged_ref_length [OF assms(3), of ts] by (simp add: l loaded_def contents_def)
  next
    case False
    then have l: "loadTokenConfig s = (DefaultsArray, s)"
      using assms(1,2) by (simp add: loadTokenConfig_def m saveTokenConfig_def Let_def)
    show ?thesis using False by (simp add: l loaded_def contents_def)
  qed
qed

theorem loadTokenConfig_merge_witness:
  "loaded short_config = abc_token # DEFAULT_TOKENS \<and>
   storage (snd (loadTokenConfig short_config)) = Parsed (abc_token # DEFAULT_TOKENS) \<and>
   length DEFAULT_TOKENS \<le> length (loaded short_config)"
proof -
  have m: "merged_ref [abc_token] DEFAULT_TOKENS = abc_token # DEFAULT_TOKENS"
    by (simp add: merged_ref_def key_def abc_token_def DEFAULT_TOKENS_def lit_def)
  have h: "storage short_config = Parsed [abc_token]"
    "length [abc_token] < length (default_tokens short_config)"
    "distinct (map key (default_tokens short_config))"
    by (simp_all add: short_config_def initial_config_def default_keys_distinct)
      (simp add: DEFAULT_TOKENS_def)
  have a: "accepts short_config (merged_ref [abc_token] (default_tokens short_config))"
    by (simp add: short_config_def initial_config_def)
  have d: "default_tokens short_config = DEFAULT_TOKENS"
    by (simp add: short_config_def initial_config_def)
  show ?thesis using loadTokenConfig_merge [OF h] a by (simp add: m d)
qed

text \<open>
  The claim as stated fails when the storage rejects the write: the entry that was
  stored is not in the list returned, and nothing is persisted.
\<close>

theorem loadTokenConfig_merge_counterexample:
  "storage rejecting_config = Parsed [abc_token] \<and>
   length [abc_token] < length (default_tokens rejecting_config) \<and>
   loaded rejecting_config \<noteq> merged_ref [abc_token] (default_tokens rejecting_config) \<and>
   abc_token \<notin> set (loaded rejecting_config) \<and>
   storage (snd (loadTokenConfig rejecting_config)) = Parsed [abc_token]"
  by (simp add: eval_store lit_def)

lemma load_cases:
  "loadTokenConfig s = (r, s1) \<Longrightarrow>
     (s1 = s \<or> s1 = s\<lparr>storage := Parsed (contents s r)\<rparr>) \<and>
     (r = DefaultsArray \<or>
      (\<exists>ts. storage s = Parsed ts \<and>
         (r = FreshArray ts \<or> r = FreshArray (mergeDefaults ts (default_tokens s)))))"
  by (cases "storage s")
    (auto simp: loadTokenConfig_def saveTokenConfig_def contents_def Let_def split: if_splits)

lemma load_inv:
  assumes "store_inv s" "loadTokenConfig s = (r, s1)"
  shows "store_inv s1 \<and> distinct (map key (contents s1 r))"
proof -
  from load_cases [OF assms(2)]
  have st: "s1 = s \<or> s1 = s\<lparr>storage := Parsed (contents s r)\<rparr>"
    and r: "r = DefaultsArray \<or>
      (\<exists>ts. storage s = Parsed ts \<and>
         (r = FreshArray ts \<or> r = FreshArray (mergeDefaults ts (default_tokens s))))"
    by simp_all
  have c: "distinct (map key (contents s r))"
    using r assms(1) by (auto simp: contents_def store_inv_def mergeDefaults_distinct)
  from st show ?thesis
  proof
    assume "s1 = s"
    then show ?thesis using assms(1) c by simp
  next
    assume "s1 = s\<lparr>storage := Parsed (contents s r)\<rparr>"
    then show ?thesis using assms(1) c
      by (cases r) (simp_all add: store_inv_def contents_def)
  qed
qed

lemma save_inv:
  assumes "distinct (map key (default_tokens s))" "distinct (map key ts)"
    and "case storage s of Parsed xs \<Rightarrow> distinct (map key xs) | _ \<Rightarrow> True"
  shows "store_inv (snd (saveTokenConfig ts s))"
  using assms by (simp add: saveTokenConfig_def store_inv_def)

lemma add_inv:
  assumes "store_inv s"
  shows "store_inv (snd (addToken t s))"
proof -
  obtain r s1 where l: "loadTokenConfig s = (r, s1)" by (cases "loadTokenConfig s")
  from load_inv [OF assms l] have i: "store_inv s1" and c: "distinct (map key (contents s1 r))"
    by simp_all
  show ?thesis
  proof (cases r)
    case DefaultsArray
    then show ?thesis using i c
      by (simp add: addToken_def l push_def contents_def exists_key
          saveTokenConfig_def store_inv_def)
  next
    case (FreshArray ts)
    then show ?thesis using i c
      by (simp add: addToken_def l push_def contents_def exists_key
          saveTokenConfig_def store_inv_def)
  qed
qed

lemma remove_inv:
  assumes "store_inv s"
  shows "store_inv (snd (removeToken c i s))"
proof -
  obtain r s1 where l: "loadTokenConfig s = (r, s1)" by (cases "loadTokenConfig s")
  from load_inv [OF assms l] have i: "store_inv s1" and c: "distinct (map key (contents s1 r))"
    by simp_all
  show ?thesis using i c
    by (simp add: removeToken_def l saveTokenConfig_def store_inv_def distinct_map_filter Let_def)
qed

lemma findIndex_Some:
  "findIndex P xs = Some i \<Longrightarrow> i < length xs \<and> P (xs ! i) \<and> (\<forall>j<i. \<not> P (xs ! j))"
proof (induction xs arbitrary: i)
  case Nil
  then show ?case by simp
next
  case (Cons x xs)
  show ?case
  proof (cases "P x")
    case True
    then show ?thesis using Cons.prems by simp
  next
    case False
    with Cons.prems obtain k where k: "findIndex P xs = Some k" "i = Suc k" by auto
    from Cons.IH [OF k(1)] False k(2) show ?thesis by (auto simp: less_Suc_eq_0_disj)
  qed
qed

lemma findIndex_None: "findIndex P xs = None \<longleftrightarrow> (\<forall>x\<in>set xs. \<not> P x)"
  by (induction xs) auto

lemma other_key:
  "list_ex (\<lambda>j. j \<noteq> i \<and> currency (xs ! j) = currency n \<and> issuer (xs ! j) = issuer n) [0..<length xs]
     \<longleftrightarrow> (\<exists>j<length xs. j \<noteq> i \<and> key (xs ! j) = key n)"
  by (auto simp: list_ex_iff key_def)

lemma distinct_update:
  assumes "distinct (map key xs)" "i < length xs"
    and "\<not> (\<exists>j<length xs. j \<noteq> i \<and> key (xs ! j) = key n)"
  shows "distinct (map key (xs[i := n]))"
proof -
  have "\<forall>a<length xs. \<forall>b<length xs. a \<noteq> b \<longrightarrow> key (xs ! a) \<noteq> key (xs ! b)"
    using assms(1) by (simp add: distinct_conv_nth)
  then have "\<forall>a<length xs. \<forall>b<length xs. a \<noteq> b \<longrightarrow> key (xs[i := n] ! a) \<noteq> key (xs[i := n] ! b)"
    using assms(2,3) by (auto simp: nth_list_update)
  then show ?thesis by (simp add: distinct_conv_nth)
qed

lemma update_inv:
  assumes "store_inv s"
  shows "store_inv (snd (updateToken oc oi n s))"
proof (cases "validateXRPLAddress (issuer n)")
  case False
  then show ?thesis using assms by (simp add: updateToken_def)
next
  case True
  obtain r s1 where l: "loadTokenConfig s = (r, s1)" by (cases "loadTokenConfig s")
  from load_inv [OF assms l] have i: "store_inv s1" and c: "distinct (map key (contents s1 r))"
    by simp_all
  let ?xs = "contents s1 r"
  show ?thesis
  proof (cases "findIndex (\<lambda>t. currency t = oc \<and> issuer t = oi) ?xs")
    case None
    then show ?thesis using True i by (simp add: updateToken_def l)
  next
    case (Some k)
    from findIndex_Some [OF Some] have k: "k < length ?xs" by simp
    show ?thesis
    proof (cases "\<exists>j<length ?xs. j \<noteq> k \<and> key (?xs ! j) = key n")
      case dup: True
      then show ?thesis using True i Some by (simp add: updateToken_def l other_key)
    next
      case nodup: False
      have u: "distinct (map key (?xs[k := n]))" by (rule distinct_update [OF c k nodup])
      show ?thesis
      proof (cases r)
        case DefaultsArray
        then show ?thesis using True i Some nodup u
          by (simp add: updateToken_def l other_key assign_def contents_def
              saveTokenConfig_def store_inv_def)
      next
        case (FreshArray ts)
        then show ?thesis using True i Some nodup u
          by (simp add: updateToken_def l other_key assign_def contents_def
              saveTokenConfig_def store_inv_def)
      qed
    qed
  qed
qed

text \<open>
  Claim C9. The canonical default list has no two entries with one key, and each of its
  entries has a valid issuer address and a display name. A first run starts within the
  invariant, and \<open>add\<close>, \<open>update\<close>, \<open>remove\<close> and \<open>load\<close> with its merge keep it: no two
  stored entries share a key, and neither do two entries of the list \<open>load()\<close> returns.
\<close>

theorem no_duplicate_keys:
  "distinct (map key DEFAULT_TOKENS) \<and>
   list_all (\<lambda>t. validateXRPLAddress (issuer t) \<and> customName t \<noteq> None) DEFAULT_TOKENS \<and>
   (default_tokens s = DEFAULT_TOKENS \<and> storage s = NoItem \<longrightarrow> store_inv s) \<and>
   (store_inv s \<longrightarrow>
      store_inv (snd (addToken t s)) \<and>
      store_inv (snd (updateToken oc oi n s)) \<and>
      store_inv (snd (removeToken c i s)) \<and>
      store_inv (snd (loadTokenConfig s)) \<and>
      distinct (map key (loaded s)))"
proof (intro conjI impI)
  show "distinct (map key DEFAULT_TOKENS)" by (rule default_keys_distinct)
  show "list_all (\<lambda>t. validateXRPLAddress (issuer t) \<and> customName t \<noteq> None) DEFAULT_TOKENS"
    by (rule default_shape)
next
  assume "default_tokens s = DEFAULT_TOKENS \<and> storage s = NoItem"
  then show "store_inv s" by (simp add: store_inv_def default_keys_distinct)
next
  assume i: "store_inv s"
  obtain r s1 where l: "loadTokenConfig s = (r, s1)" by (cases "loadTokenConfig s")
  show "store_inv (snd (addToken t s))" by (rule add_inv [OF i])
  show "store_inv (snd (updateToken oc oi n s))" by (rule update_inv [OF i])
  show "store_inv (snd (removeToken c i s))" by (rule remove_inv [OF i])
  show "store_inv (snd (loadTokenConfig s))" using load_inv [OF i l] by (simp add: l)
  show "distinct (map key (loaded s))" using load_inv [OF i l] by (simp add: l loaded_def)
qed

theorem no_duplicate_keys_witness:
  "store_inv initial_config \<and>
   store_inv (snd (addToken abc_token initial_config)) \<and>
   store_inv (snd (loadTokenConfig initial_config))"
proof -
  have "default_tokens initial_config = DEFAULT_TOKENS \<and> storage initial_config = NoItem"
    by (simp add: initial_config_def)
  then show ?thesis
    using no_duplicate_keys [of initial_config abc_token] by simp
qed

lemma load_steady:
  "storage s = Parsed ts \<Longrightarrow> length (default_tokens s) \<le> length ts \<Longrightarrow>
     loadTokenConfig s = (FreshArray ts, s)"
  by (simp add: loadTokenConfig_def)

lemma assign_contents:
  "assign r k n s1 = (r', s2) \<Longrightarrow>
     contents s2 r' = (contents s1 r)[k := n] \<and> storage s2 = storage s1 \<and> accepts s2 = accepts s1"
  by (cases r) (auto simp: assign_def contents_def)

text \<open>
  Claim C8, as the code has it. With a valid issuer, \<open>add\<close> of a token whose key is in
  the list \<open>load()\<close> returns fails with DuplicateToken; with a valid new issuer, \<open>update\<close>
  fails with NotFound when the old key matches no entry, and with DuplicateToken when
  the new key is that of another entry. In each case the state is the one \<open>load()\<close>
  alone leaves, which is the state before when the stored list is at least as long as
  the default list. A successful \<open>update\<close> replaces the first entry with the old key in
  place.
\<close>

theorem mutations_atomic:
  "(validateXRPLAddress (issuer t) \<and> key t \<in> set (map key (loaded s)) \<longrightarrow>
      addToken t s = (Inl DuplicateToken, snd (loadTokenConfig s))) \<and>
   (validateXRPLAddress (issuer n) \<and> (oc, oi) \<notin> set (map key (loaded s)) \<longrightarrow>
      updateToken oc oi n s = (Inl NotFound, snd (loadTokenConfig s))) \<and>
   (validateXRPLAddress (issuer n) \<and>
    findIndex (\<lambda>t. currency t = oc \<and> issuer t = oi) (loaded s) = Some k \<and>
    (\<exists>j<length (loaded s). j \<noteq> k \<and> key (loaded s ! j) = key n) \<longrightarrow>
      updateToken oc oi n s = (Inl DuplicateToken, snd (loadTokenConfig s))) \<and>
   (updateToken oc oi n s = (Inr (), s') \<longrightarrow>
      (\<exists>m<length (loaded s). findIndex (\<lambda>t. currency t = oc \<and> issuer t = oi) (loaded s) = Some m \<and>
         key (loaded s ! m) = (oc, oi) \<and> storage s' = Parsed ((loaded s)[m := n]))) \<and>
   (storage s = Parsed ts \<and> length (default_tokens s) \<le> length ts \<longrightarrow>
      snd (loadTokenConfig s) = s)"
proof -
  obtain r s1 where l: "loadTokenConfig s = (r, s1)" by (cases "loadTokenConfig s")
  have ld: "loaded s = contents s1 r" by (simp add: loaded_def l)
  let ?xs = "contents s1 r"
  have a: "validateXRPLAddress (issuer t) \<and> key t \<in> set (map key (loaded s)) \<longrightarrow>
      addToken t s = (Inl DuplicateToken, snd (loadTokenConfig s))"
    by (simp add: addToken_def l ld exists_key)
  have b: "validateXRPLAddress (issuer n) \<and> (oc, oi) \<notin> set (map key (loaded s)) \<longrightarrow>
      updateToken oc oi n s = (Inl NotFound, snd (loadTokenConfig s))"
  proof
    assume h: "validateXRPLAddress (issuer n) \<and> (oc, oi) \<notin> set (map key (loaded s))"
    then have "\<forall>x\<in>set ?xs. \<not> (currency x = oc \<and> issuer x = oi)"
      by (auto simp: ld key_def image_iff)
    then have "findIndex (\<lambda>t. currency t = oc \<and> issuer t = oi) ?xs = None"
      by (simp add: findIndex_None)
    then show "updateToken oc oi n s = (Inl NotFound, snd (loadTokenConfig s))"
      using h by (simp add: updateToken_def l)
  qed
  have c: "validateXRPLAddress (issuer n) \<and>
    findIndex (\<lambda>t. currency t = oc \<and> issuer t = oi) (loaded s) = Some k \<and>
    (\<exists>j<length (loaded s). j \<noteq> k \<and> key (loaded s ! j) = key n) \<longrightarrow>
      updateToken oc oi n s = (Inl DuplicateToken, snd (loadTokenConfig s))"
    by (simp add: updateToken_def l ld other_key)
  have d: "updateToken oc oi n s = (Inr (), s') \<longrightarrow>
      (\<exists>m<length (loaded s). findIndex (\<lambda>t. currency t = oc \<and> issuer t = oi) (loaded s) = Some m \<and>
         key (loaded s ! m) = (oc, oi) \<and> storage s' = Parsed ((loaded s)[m := n]))"
  proof
    assume u: "updateToken oc oi n s = (Inr (), s')"
    then have v: "validateXRPLAddress (issuer n)"
      by (auto simp: updateToken_def split: if_splits)
    from u v obtain m where m: "findIndex (\<lambda>t. currency t = oc \<and> issuer t = oi) ?xs = Some m"
      by (cases "findIndex (\<lambda>t. currency t = oc \<and> issuer t = oi) ?xs")
        (auto simp: updateToken_def l)
    from findIndex_Some [OF m] have mk: "m < length ?xs" "key (?xs ! m) = (oc, oi)"
      by (simp_all add: key_def)
    obtain r' s2 where as: "assign r m n s1 = (r', s2)" by (cases "assign r m n s1")
    from assign_contents [OF as]
    have ac: "contents s2 r' = ?xs[m := n]" "accepts s2 = accepts s1" by simp_all
    have "storage s' = Parsed (?xs[m := n])"
      using u v m as ac
      by (auto simp: updateToken_def l saveTokenConfig_def split: if_splits)
    then show "\<exists>m<length (loaded s). findIndex (\<lambda>t. currency t = oc \<and> issuer t = oi) (loaded s) = Some m \<and>
         key (loaded s ! m) = (oc, oi) \<and> storage s' = Parsed ((loaded s)[m := n])"
      using m mk by (auto simp: ld)
  qed
  have e: "storage s = Parsed ts \<and> length (default_tokens s) \<le> length ts \<longrightarrow>
      snd (loadTokenConfig s) = s"
    by (simp add: load_steady)
  from a b c d e show ?thesis by blast
qed

theorem mutations_atomic_witness:
  "addToken (DEFAULT_TOKENS ! 0) full_config = (Inl DuplicateToken, full_config) \<and>
   updateToken (lit ''XYZ'') wallet abc_token full_config = (Inl NotFound, full_config) \<and>
   updateToken (lit ''ASC'') (lit ''r3qWgpz2ry3BhcRJ8JE6rxM8esrfhuKp4R'') (DEFAULT_TOKENS ! 4) full_config
     = (Inl DuplicateToken, full_config)"
proof -
  have l: "loadTokenConfig full_config = (FreshArray DEFAULT_TOKENS, full_config)"
    by (rule load_steady) (simp_all add: full_config_def initial_config_def)
  have ld: "loaded full_config = DEFAULT_TOKENS" by (simp add: loaded_def l contents_def)
  have h1: "validateXRPLAddress (issuer (DEFAULT_TOKENS ! 0)) \<and>
            key (DEFAULT_TOKENS ! 0) \<in> set (map key (loaded full_config))"
    by (simp add: ld) (simp add: DEFAULT_TOKENS_def lit_def validateXRPLAddress_def isBase58_def)
  have h2: "validateXRPLAddress (issuer abc_token) \<and>
            (lit ''XYZ'', wallet) \<notin> set (map key (loaded full_config))"
    by (simp add: ld) (simp add: DEFAULT_TOKENS_def abc_token_def wallet_def key_def lit_def
        validateXRPLAddress_def isBase58_def)
  have h3: "validateXRPLAddress (issuer (DEFAULT_TOKENS ! 4)) \<and>
     findIndex (\<lambda>t. currency t = lit ''ASC'' \<and> issuer t = lit ''r3qWgpz2ry3BhcRJ8JE6rxM8esrfhuKp4R'')
       (loaded full_config) = Some 3 \<and>
     (\<exists>j<length (loaded full_config). j \<noteq> 3 \<and> key (loaded full_config ! j) = key (DEFAULT_TOKENS ! 4))"
  proof (intro conjI)
    show "validateXRPLAddress (issuer (DEFAULT_TOKENS ! 4))"
      by (simp add: DEFAULT_TOKENS_def lit_def validateXRPLAddress_def isBase58_def)
    show "findIndex (\<lambda>t. currency t = lit ''ASC'' \<and> issuer t = lit ''r3qWgpz2ry3BhcRJ8JE6rxM8esrfhuKp4R'')
       (loaded full_config) = Some 3"
      by (simp add: ld) (simp add: DEFAULT_TOKENS_def lit_def)
    have "(4::nat) < length (loaded full_config) \<and> (4::nat) \<noteq> 3 \<and>
          key (loaded full_config ! 4) = key (DEFAULT_TOKENS ! 4)"
      by (simp add: ld) (simp add: DEFAULT_TOKENS_def)
    then show "\<exists>j<length (loaded full_config). j \<noteq> 3 \<and> key (loaded full_config ! j) = key (DEFAULT_TOKENS ! 4)"
      by blast
  qed
  show ?thesis
    using mutations_atomic [where t = "DEFAULT_TOKENS ! 0" and s = full_config and n = abc_token
        and oc = "lit ''XYZ''" and oi = wallet] h1 h2
      mutations_atomic [where s = full_config and n = "DEFAULT_TOKENS ! 4" and oc = "lit ''ASC''"
        and oi = "lit ''r3qWgpz2ry3BhcRJ8JE6rxM8esrfhuKp4R''" and k = 3] h3
    by (simp add: l)
qed

text \<open>
  The claim as stated fails on a stored list shorter than the default list: the \<open>add\<close>
  fails with DuplicateToken after its \<open>load()\<close> has persisted the merged list.
\<close>

theorem mutations_atomic_counterexample:
  "validateXRPLAddress (issuer abc_token) \<and> storage short_config = Parsed [abc_token] \<and>
   fst (addToken abc_token short_config) = Inl DuplicateToken \<and>
   storage (snd (addToken abc_token short_config)) \<noteq> storage short_config"
  by (simp add: addToken_def eval_store lit_def validateXRPLAddress_def isBase58_def)

section \<open>Properties of the matcher\<close>







section \<open>Properties of the client\<close>

lemma retry3:
  "retryWithBackoff fn 3 1000 s =
     (case fn s of
        (Inr v, s1) \<Rightarrow> (Inr v, s1)
      | (Inl e1, s1) \<Rightarrow>
          (case fn (s1\<lparr>waits := waits s1 @ [1000]\<rparr>) of
             (Inr v, s2) \<Rightarrow> (Inr v, s2)
           | (Inl e2, s2) \<Rightarrow>
               (case fn (s2\<lparr>waits := waits s2 @ [2000]\<rparr>) of
                  (Inr v, s3) \<Rightarrow> (Inr v, s3)
                | (Inl e3, s3) \<Rightarrow> (Inl e3, s3))))"
  by (simp add: retryWithBackoff_def retryLoop.simps split: prod.splits sum.splits)

lemma mk_state:
  assumes "validateXRPLAddress a"
  shows "sent (snd (makeXRPLRequest net m a s)) = sent s @ [currentServerIndex s] \<and>
         waits (snd (makeXRPLRequest net m a s)) = waits s"
  using assms
  by (simp add: makeXRPLRequest_def Let_def split: reply.splits sum.splits option.splits)

lemma mk_isl:
  assumes "validateXRPLAddress a"
  shows "isl (fst (makeXRPLRequest net m a s)) = failing (net (length (sent s)))"
  using assms
  by (simp add: makeXRPLRequest_def failing_def Let_def split: reply.splits sum.splits option.splits)

lemma mk_ok:
  assumes "validateXRPLAddress a" "net (length (sent s)) = Response st (Inr (Some r))"
    "200 \<le> st" "st \<le> 299" "\<not> truthy (error r)"
  shows "fst (makeXRPLRequest net m a s) = Inr r"
  using assms by (simp add: makeXRPLRequest_def Let_def)

lemma retry_request:
  assumes v: "validateXRPLAddress a"
  shows "\<exists>k t. 1 \<le> k \<and> k \<le> 3 \<and>
     retryWithBackoff (makeXRPLRequest net m a) 3 1000 s = makeXRPLRequest net m a t \<and>
     length (sent t) = length (sent s) + k - 1 \<and>
     waits t = waits s @ take (k - 1) [1000, 2000] \<and>
     list_all (\<lambda>j. failing (net (length (sent s) + j))) [0..<k - 1] \<and>
     (k < 3 \<longrightarrow> \<not> failing (net (length (sent s) + k - 1)))"
proof -
  let ?P = "makeXRPLRequest net m a"
  let ?n = "length (sent s)"
  obtain r1 s1 where p1: "?P s = (r1, s1)" by (cases "?P s")
  have i1: "isl r1 = failing (net ?n)" using mk_isl [OF v, of net m s] by (simp add: p1)
  have st1: "sent s1 = sent s @ [currentServerIndex s]" "waits s1 = waits s"
    using mk_state [OF v, of net m s] by (simp_all add: p1)
  show ?thesis
  proof (cases "failing (net ?n)")
    case False
    then obtain x where "r1 = Inr x" using i1 by (cases r1) simp_all
    then have "retryWithBackoff ?P 3 1000 s = ?P s" by (simp add: retry3 p1)
    then have "1 \<le> (1::nat) \<and> (1::nat) \<le> 3 \<and> retryWithBackoff ?P 3 1000 s = ?P s \<and>
      length (sent s) = ?n + 1 - 1 \<and> waits s = waits s @ take (1 - 1) [1000, 2000] \<and>
      list_all (\<lambda>j. failing (net (?n + j))) [0..<1 - 1] \<and>
      ((1::nat) < 3 \<longrightarrow> \<not> failing (net (?n + 1 - 1)))"
      using False by simp
    then show ?thesis by blast
  next
    case f1: True
    then obtain e1 where r1: "r1 = Inl e1" using i1 by (cases r1) simp_all
    define t1 where "t1 = s1\<lparr>waits := waits s1 @ [1000]\<rparr>"
    have t1: "length (sent t1) = ?n + 1" "waits t1 = waits s @ [1000]"
      by (simp_all add: t1_def st1)
    obtain r2 s2 where p2: "?P t1 = (r2, s2)" by (cases "?P t1")
    have i2: "isl r2 = failing (net (?n + 1))"
      using mk_isl [OF v, of net m t1] by (simp add: p2 t1)
    have st2: "length (sent s2) = ?n + 2" "waits s2 = waits s @ [1000]"
      using mk_state [OF v, of net m t1] by (simp_all add: p2 t1)
    show ?thesis
    proof (cases "failing (net (?n + 1))")
      case False
      then obtain x where "r2 = Inr x" using i2 by (cases r2) simp_all
      then have "retryWithBackoff ?P 3 1000 s = ?P t1"
        using p2 by (simp add: retry3 p1 r1 t1_def [symmetric])
      then have "1 \<le> (2::nat) \<and> (2::nat) \<le> 3 \<and> retryWithBackoff ?P 3 1000 s = ?P t1 \<and>
        length (sent t1) = ?n + 2 - 1 \<and> waits t1 = waits s @ take (2 - 1) [1000, 2000] \<and>
        list_all (\<lambda>j. failing (net (?n + j))) [0..<2 - 1] \<and>
        ((2::nat) < 3 \<longrightarrow> \<not> failing (net (?n + 2 - 1)))"
        using False f1 t1 by simp
      then show ?thesis by blast
    next
      case f2: True
      then obtain e2 where r2: "r2 = Inl e2" using i2 by (cases r2) simp_all
      define t2 where "t2 = s2\<lparr>waits := waits s2 @ [2000]\<rparr>"
      have t2: "length (sent t2) = ?n + 2" "waits t2 = waits s @ [1000, 2000]"
        by (simp_all add: t2_def st2)
      have "retryWithBackoff ?P 3 1000 s = ?P t2"
        by (simp add: retry3 p1 r1 t1_def [symmetric] p2 r2 t2_def [symmetric]
            split: prod.splits sum.splits)
      moreover have "[0..<3 - 1] = [0, Suc 0]" by (simp add: upt_rec)
      ultimately have "1 \<le> (3::nat) \<and> (3::nat) \<le> 3 \<and> retryWithBackoff ?P 3 1000 s = ?P t2 \<and>
        length (sent t2) = ?n + 3 - 1 \<and> waits t2 = waits s @ take (3 - 1) [1000, 2000] \<and>
        list_all (\<lambda>j. failing (net (?n + j))) [0..<3 - 1] \<and>
        ((3::nat) < 3 \<longrightarrow> \<not> failing (net (?n + 3 - 1)))"
        using f1 f2 t2 by simp
      then show ?thesis by blast
    qed
  qed
qed

lemma retried_request:
  assumes v: "validateXRPLAddress a"
  shows "retried net s (snd (retryWithBackoff (makeXRPLRequest net m a) 3 1000 s))"
proof -
  from retry_request [OF v, of net m s] obtain k t where
    k: "1 \<le> k" "k \<le> 3"
    and eq: "retryWithBackoff (makeXRPLRequest net m a) 3 1000 s = makeXRPLRequest net m a t"
    and t: "length (sent t) = length (sent s) + k - 1" "waits t = waits s @ take (k - 1) [1000, 2000]"
    and f: "list_all (\<lambda>j. failing (net (length (sent s) + j))) [0..<k - 1]"
      "k < 3 \<longrightarrow> \<not> failing (net (length (sent s) + k - 1))"
    by blast
  let ?s' = "snd (makeXRPLRequest net m a t)"
  have "length (sent ?s') = length (sent s) + k" "waits ?s' = waits s @ take (k - 1) [1000, 2000]"
    using mk_state [OF v, of net m t] t k by simp_all
  then have "attempts s ?s' = k" "delays s ?s' = take (k - 1) [1000, 2000]"
    by (simp_all add: attempts_def delays_def)
  then show ?thesis using k f by (simp add: retried_def eq Let_def)
qed

lemma fetch_states:
  "validateXRPLAddress a \<Longrightarrow>
     snd (fetchAccountInfo net a s) = snd (retryWithBackoff (makeXRPLRequest net ''account_info'' a) 3 1000 s)"
  "validateXRPLAddress a \<Longrightarrow>
     snd (fetchAccountLines net a s) = snd (retryWithBackoff (makeXRPLRequest net ''account_lines'' a) 3 1000 s)"
  "validateXRPLAddress a \<Longrightarrow>
     snd (fetchAccountNFTs net a s) = snd (retryWithBackoff (makeXRPLRequest net ''account_nfts'' a) 3 1000 s)"
  by (simp_all add: fetchAccountInfo_def fetchAccountLines_def fetchAccountNFTs_def
      split: prod.splits sum.splits option.splits)

lemma retry_twice_failed:
  assumes v: "validateXRPLAddress a"
    and f: "failing (net (length (sent s)))" "failing (net (length (sent s) + 1))"
  shows "\<exists>t. length (sent t) = length (sent s) + 2 \<and> waits t = waits s @ [1000, 2000] \<and>
     retryWithBackoff (makeXRPLRequest net m a) 3 1000 s = makeXRPLRequest net m a t"
proof -
  from retry_request [OF v, of net m s] obtain k t where
    k: "1 \<le> k" "k \<le> 3"
    and eq: "retryWithBackoff (makeXRPLRequest net m a) 3 1000 s = makeXRPLRequest net m a t"
    and t: "length (sent t) = length (sent s) + k - 1" "waits t = waits s @ take (k - 1) [1000, 2000]"
    and g: "k < 3 \<longrightarrow> \<not> failing (net (length (sent s) + k - 1))"
    by blast
  have "k \<noteq> 1" using g f(1) by auto
  moreover have "k \<noteq> 2" using g f(2) by auto
  ultimately have "k = 3" using k by arith
  then show ?thesis using eq t by auto
qed

lemma wallet_valid: "validateXRPLAddress wallet"
  by (simp add: wallet_def lit_def validateXRPLAddress_def isBase58_def)

lemmas eval_client = fetchAccountInfo_def fetchAccountLines_def fetchAccountNFTs_def
  retryWithBackoff_def retryLoop.simps makeXRPLRequest_def caught_def truthy_def XRPL_SERVERS_def
  initial_client_def unreachable_def flaky_def rejected_def failing_def attempts_def delays_def

text \<open>
  Claim C3, as the code has it. The retry policy applies to all three fetches, the NFT
  fetch included: on a valid address each of them sends requests until the first reply
  that does not fail, three at most, and waits 1000 time units before the second and
  2000 before the third. When all three replies fail, the account-info and trust-line
  fetches raise the error of the third request and the NFT fetch returns the empty
  list. A trust-line fetch whose first two replies fail and whose third succeeds
  returns that result, after three requests and waits of 1000 and 2000.
\<close>

theorem retry_policy:
  assumes v: "validateXRPLAddress a"
  shows "retried net s (snd (fetchAccountInfo net a s)) \<and>
    retried net s (snd (fetchAccountLines net a s)) \<and>
    retried net s (snd (fetchAccountNFTs net a s)) \<and>
    (failing (net (length (sent s))) \<and> failing (net (length (sent s) + 1)) \<and>
     failing (net (length (sent s) + 2)) \<longrightarrow>
       (\<exists>t e. length (sent t) = length (sent s) + 2 \<and>
          fst (makeXRPLRequest net ''account_info'' a t) = Inl e \<and>
          fst (fetchAccountInfo net a s) = Inl e) \<and>
       (\<exists>t e. length (sent t) = length (sent s) + 2 \<and>
          fst (makeXRPLRequest net ''account_lines'' a t) = Inl e \<and>
          fst (fetchAccountLines net a s) = Inl e) \<and>
       fst (fetchAccountNFTs net a s) = Inr []) \<and>
    (failing (net (length (sent s))) \<and> failing (net (length (sent s) + 1)) \<and>
     net (length (sent s) + 2) = Response st (Inr (Some r)) \<and> 200 \<le> st \<and> st \<le> 299 \<and>
     \<not> truthy (error r) \<longrightarrow>
       fst (fetchAccountLines net a s) = Inr (case lines r of None \<Rightarrow> [] | Some ls \<Rightarrow> ls) \<and>
       attempts s (snd (fetchAccountLines net a s)) = 3 \<and>
       delays s (snd (fetchAccountLines net a s)) = [1000, 2000])"
proof (intro conjI impI)
  show "retried net s (snd (fetchAccountInfo net a s))"
    using retried_request [OF v] by (simp add: fetch_states(1) [OF v])
  show "retried net s (snd (fetchAccountLines net a s))"
    using retried_request [OF v] by (simp add: fetch_states(2) [OF v])
  show "retried net s (snd (fetchAccountNFTs net a s))"
    using retried_request [OF v] by (simp add: fetch_states(3) [OF v])
next
  assume f: "failing (net (length (sent s))) \<and> failing (net (length (sent s) + 1)) \<and>
     failing (net (length (sent s) + 2))"
  have last: "\<exists>t e s'. length (sent t) = length (sent s) + 2 \<and>
      makeXRPLRequest net m a t = (Inl e, s') \<and>
      retryWithBackoff (makeXRPLRequest net m a) 3 1000 s = (Inl e, s')" for m
  proof -
    from retry_twice_failed [OF v, of net s m] f obtain t where
      t: "length (sent t) = length (sent s) + 2"
      and eq: "retryWithBackoff (makeXRPLRequest net m a) 3 1000 s = makeXRPLRequest net m a t"
      by blast
    have "isl (fst (makeXRPLRequest net m a t))" using mk_isl [OF v, of net m t] f t by simp
    then obtain e s' where "makeXRPLRequest net m a t = (Inl e, s')"
      by (cases "makeXRPLRequest net m a t") (auto simp: isl_def)
    then show ?thesis using t eq by auto
  qed
  from last [of "''account_info''"]
  show "\<exists>t e. length (sent t) = length (sent s) + 2 \<and>
          fst (makeXRPLRequest net ''account_info'' a t) = Inl e \<and>
          fst (fetchAccountInfo net a s) = Inl e"
    using v by (auto simp: fetchAccountInfo_def)
  from last [of "''account_lines''"]
  show "\<exists>t e. length (sent t) = length (sent s) + 2 \<and>
          fst (makeXRPLRequest net ''account_lines'' a t) = Inl e \<and>
          fst (fetchAccountLines net a s) = Inl e"
    using v by (auto simp: fetchAccountLines_def)
  from last [of "''account_nfts''"]
  show "fst (fetchAccountNFTs net a s) = Inr []"
    using v by (auto simp: fetchAccountNFTs_def)
next
  assume h: "failing (net (length (sent s))) \<and> failing (net (length (sent s) + 1)) \<and>
     net (length (sent s) + 2) = Response st (Inr (Some r)) \<and> 200 \<le> st \<and> st \<le> 299 \<and>
     \<not> truthy (error r)"
  from retry_twice_failed [OF v, of net s "''account_lines''"] h obtain t where
    t: "length (sent t) = length (sent s) + 2" "waits t = waits s @ [1000, 2000]"
    and eq: "retryWithBackoff (makeXRPLRequest net ''account_lines'' a) 3 1000 s =
             makeXRPLRequest net ''account_lines'' a t"
    by blast
  have ok: "fst (makeXRPLRequest net ''account_lines'' a t) = Inr r"
    using mk_ok [OF v, of net t st r] h t by simp
  have st: "sent (snd (makeXRPLRequest net ''account_lines'' a t)) = sent t @ [currentServerIndex t]"
    "waits (snd (makeXRPLRequest net ''account_lines'' a t)) = waits t"
    using mk_state [OF v, of net "''account_lines''" t] by simp_all
  obtain s' where p: "makeXRPLRequest net ''account_lines'' a t = (Inr r, s')"
    using ok by (cases "makeXRPLRequest net ''account_lines'' a t") simp
  have s': "length (sent s') = length (sent s) + 3" "waits s' = waits s @ [1000, 2000]"
    using st t by (simp_all add: p)
  have res: "fetchAccountLines net a s = (Inr (case lines r of None \<Rightarrow> [] | Some ls \<Rightarrow> ls), s')"
    using v by (simp add: fetchAccountLines_def eq p)
  show "fst (fetchAccountLines net a s) = Inr (case lines r of None \<Rightarrow> [] | Some ls \<Rightarrow> ls)"
    by (simp add: res)
  show "attempts s (snd (fetchAccountLines net a s)) = 3"
    by (simp add: res attempts_def s')
  show "delays s (snd (fetchAccountLines net a s)) = [1000, 2000]"
    by (simp add: res delays_def s')
qed

theorem retry_policy_witness:
  "fst (fetchAccountLines flaky wallet initial_client) = Inr [7, 8] \<and>
   attempts initial_client (snd (fetchAccountLines flaky wallet initial_client)) = 3 \<and>
   delays initial_client (snd (fetchAccountLines flaky wallet initial_client)) = [1000, 2000]"
proof -
  have h: "failing (flaky (length (sent initial_client))) \<and>
     failing (flaky (length (sent initial_client) + 1)) \<and>
     flaky (length (sent initial_client) + 2) =
       Response 200 (Inr (Some \<lparr>error = None, error_message = None, account_data = None,
                                lines = Some [7, 8], account_nfts = None\<rparr>)) \<and>
     (200::nat) \<le> 200 \<and> (200::nat) \<le> 299 \<and>
     \<not> truthy (error \<lparr>error = None, error_message = None, account_data = None,
                       lines = Some [7, 8 :: nat], account_nfts = None :: nat list option\<rparr>)"
    by (simp add: failing_def flaky_def initial_client_def truthy_def)
  show ?thesis
    using retry_policy [OF wallet_valid, of flaky initial_client 200
        "\<lparr>error = None, error_message = None, account_data = None,
          lines = Some [7, 8], account_nfts = None\<rparr>"] h
    by simp
qed

text \<open>
  The claim as stated excludes NFT fetches from the retry policy; on a network where
  every request fails the NFT fetch makes three requests and waits 1000, then 2000.
\<close>

theorem retry_policy_counterexample:
  "validateXRPLAddress wallet \<and>
   attempts initial_client (snd (fetchAccountNFTs unreachable wallet initial_client)) = 3 \<and>
   delays initial_client (snd (fetchAccountNFTs unreachable wallet initial_client)) = [1000, 2000] \<and>
   fst (fetchAccountNFTs unreachable wallet initial_client) = Inr []"
  by (simp add: wallet_valid) (simp add: eval_client wallet_def lit_def validateXRPLAddress_def isBase58_def)

text \<open>
  Claim C6. On a valid address the NFT fetch never raises: when the retried request
  fails, whether by a transport error, a status that is not 2xx or a well-formed error
  payload, the fetch returns the empty list.
\<close>

theorem fetchAccountNFTs_swallows:
  assumes v: "validateXRPLAddress a"
  shows "(\<forall>e. fst (fetchAccountNFTs net a s) \<noteq> Inl e) \<and>
    (isl (fst (retryWithBackoff (makeXRPLRequest net ''account_nfts'' a) 3 1000 s)) \<longrightarrow>
       fst (fetchAccountNFTs net a s) = Inr []) \<and>
    (failing (net (length (sent s))) \<and> failing (net (length (sent s) + 1)) \<and>
     failing (net (length (sent s) + 2)) \<longrightarrow> fst (fetchAccountNFTs net a s) = Inr [])"
proof (intro conjI impI allI)
  fix e show "fst (fetchAccountNFTs net a s) \<noteq> Inl e"
    using v by (simp add: fetchAccountNFTs_def split: prod.splits sum.splits)
next
  assume "isl (fst (retryWithBackoff (makeXRPLRequest net ''account_nfts'' a) 3 1000 s))"
  then show "fst (fetchAccountNFTs net a s) = Inr []"
    using v by (auto simp: fetchAccountNFTs_def isl_def split: prod.splits sum.splits)
next
  assume f: "failing (net (length (sent s))) \<and> failing (net (length (sent s) + 1)) \<and>
     failing (net (length (sent s) + 2))"
  from retry_twice_failed [OF v, of net s "''account_nfts''"] f obtain t where
    t: "length (sent t) = length (sent s) + 2"
    and eq: "retryWithBackoff (makeXRPLRequest net ''account_nfts'' a) 3 1000 s =
             makeXRPLRequest net ''account_nfts'' a t"
    by blast
  have "isl (fst (makeXRPLRequest net ''account_nfts'' a t))"
    using mk_isl [OF v, of net "''account_nfts''" t] f t by simp
  then show "fst (fetchAccountNFTs net a s) = Inr []"
    using v by (auto simp: fetchAccountNFTs_def eq isl_def split: prod.splits sum.splits)
qed

theorem fetchAccountNFTs_swallows_witness:
  "fst (fetchAccountNFTs unreachable wallet initial_client) = Inr [] \<and>
   fst (fetchAccountNFTs rejected wallet initial_client) = Inr []"
proof -
  have u: "failing (unreachable (length (sent initial_client))) \<and>
           failing (unreachable (length (sent initial_client) + 1)) \<and>
           failing (unreachable (length (sent initial_client) + 2))"
    by (simp add: failing_def unreachable_def)
  have r: "failing (rejected (length (sent initial_client))) \<and>
           failing (rejected (length (sent initial_client) + 1)) \<and>
           failing (rejected (length (sent initial_client) + 2))"
    by (simp add: failing_def rejected_def truthy_def lit_def)
  show ?thesis
    using fetchAccountNFTs_swallows [OF wallet_valid, of unreachable initial_client] u
      fetchAccountNFTs_swallows [OF wallet_valid, of rejected initial_client] r by blast
qed

text \<open>
  Claim C7. On a string that fails address validation each of the three fetches fails
  with the invalid-address error and leaves the client's state as it was: no request
  is sent, no delay is waited and the server cursor does not move. The NFT fetch raises
  the error like the other two.
\<close>

theorem invalid_address_short_circuits:
  assumes "\<not> validateXRPLAddress a"
  shows "fetchAccountInfo net a s = (Inl InvalidAddress, s) \<and>
         fetchAccountLines net a s = (Inl InvalidAddress, s) \<and>
         fetchAccountNFTs net a s = (Inl InvalidAddress, s)"
  using assms by (simp add: fetchAccountInfo_def fetchAccountLines_def fetchAccountNFTs_def)

theorem invalid_address_short_circuits_witness:
  "\<not> validateXRPLAddress (lit ''abc'') \<and>
   fetchAccountNFTs unreachable (lit ''abc'') initial_client = (Inl InvalidAddress, initial_client) \<and>
   fetchAccountInfo flaky [] initial_client = (Inl InvalidAddress, initial_client)"
proof -
  have a: "\<not> validateXRPLAddress (lit ''abc'')" "\<not> validateXRPLAddress []"
    by (simp_all add: lit_def validateXRPLAddress_def)
  show ?thesis
    using invalid_address_short_circuits [OF a(1), of unreachable initial_client]
      invalid_address_short_circuits [OF a(2), of flaky initial_client] a by simp
qed

end
